theory Spec2Isabelle
  imports Complex_Main "HOL-Library.Sublist" "HOL-Library.Log_Nat"
begin

section \<open>Decoded JSON and Python subscripting\<close>

text \<open>
  The notebooks work on the value returned by \<^verbatim>\<open>requests.get(url).json()\<close>: a Python
  object built from dicts, lists, strings, numbers, booleans and \<^verbatim>\<open>None\<close>. An object is
  kept as the list of its members in textual order; as in \<^verbatim>\<open>json.loads\<close>, the last
  binding of a repeated key is the one a lookup sees. A string is the list of its
  characters, and a number its exact value: no cell computes with either.
\<close>

datatype json =
    JNull
  | JBool bool
  | JNum rat
  | JStr string
  | JArr "json list"
  | JObj "(string \<times> json) list"

datatype pykey = StrKey string | IntKey nat

datatype py_error =
    KeyError pykey
  | IndexError
  | TypeError
  | ConnectionError
  | JSONDecodeError
  | OverflowError
  | ValueError

text \<open>
  \<^verbatim>\<open>x[k]\<close>. A dict raises KeyError for an absent key (a decoded dict has string keys
  only, so every integer key is absent); a list or a string raises TypeError for a string
  index and IndexError for an integer out of range; a string indexed in range gives the
  one-character string; anything else is not subscriptable.
\<close>

fun subscr :: "json \<Rightarrow> pykey \<Rightarrow> py_error + json" where
  "subscr (JObj kvs) (StrKey k) =
     (case map_of (rev kvs) k of None \<Rightarrow> Inl (KeyError (StrKey k)) | Some v \<Rightarrow> Inr v)"
| "subscr (JObj kvs) (IntKey i) = Inl (KeyError (IntKey i))"
| "subscr (JArr xs) (IntKey i) = (if i < length xs then Inr (xs ! i) else Inl IndexError)"
| "subscr (JArr xs) (StrKey k) = Inl TypeError"
| "subscr (JStr s) (IntKey i) = (if i < length s then Inr (JStr [s ! i]) else Inl IndexError)"
| "subscr (JStr s) (StrKey k) = Inl TypeError"
| "subscr JNull k = Inl TypeError"
| "subscr (JBool b) k = Inl TypeError"
| "subscr (JNum n) k = Inl TypeError"

text \<open>The keys of a decoded dict, each once, in order of first appearance.\<close>

definition dict_keys :: "(string \<times> json) list \<Rightarrow> string list" where
  "dict_keys kvs = rev (remdups (rev (map fst kvs)))"

text \<open>\<^verbatim>\<open>for i in x\<close>: the items the loop visits, or TypeError for a value that is not iterable.\<close>

fun py_iter :: "json \<Rightarrow> py_error + json list" where
  "py_iter (JArr xs) = Inr xs"
| "py_iter (JObj kvs) = Inr (map JStr (dict_keys kvs))"
| "py_iter (JStr s) = Inr (map (\<lambda>c. JStr [c]) s)"
| "py_iter JNull = Inl TypeError"
| "py_iter (JBool b) = Inl TypeError"
| "py_iter (JNum n) = Inl TypeError"

text \<open>\<^verbatim>\<open>len(x)\<close>.\<close>

fun py_len :: "json \<Rightarrow> py_error + nat" where
  "py_len (JArr xs) = Inr (length xs)"
| "py_len (JObj kvs) = Inr (length (dict_keys kvs))"
| "py_len (JStr s) = Inr (length s)"
| "py_len JNull = Inl TypeError"
| "py_len (JBool b) = Inl TypeError"
| "py_len (JNum n) = Inl TypeError"

section \<open>Catalog extraction (notebook part 1, cells 5, 7 and 8)\<close>

text \<open>
  The two response shapes. \<open>FlatArray\<close> is the indicator and sources response, a list
  \<^verbatim>\<open>[paging, [entry, ...]]\<close>; \<open>NestedVariable\<close> is the location response, a dict with
  the entries under \<^verbatim>\<open>["source"][0]["concept"][0]["variable"]\<close>.
\<close>

datatype schema = FlatArray | NestedVariable

text \<open>One extracted row: the tuple \<^verbatim>\<open>(i["id"], i["name"])\<close> of cell 5, the dataframe row
  \<^verbatim>\<open>{"id": code, "value": name}\<close> of cells 7 and 8. Neither cell looks at the two values,
  so they are arbitrary decoded values.\<close>

record CatalogRecord =
  code :: json
  name :: json

text \<open>The key the name is read from: \<^verbatim>\<open>"name"\<close> in cell 5, \<^verbatim>\<open>"value"\<close> in cells 7 and 8.\<close>

fun name_key :: "schema \<Rightarrow> string" where
  "name_key FlatArray = ''name''"
| "name_key NestedVariable = ''value''"

text \<open>One entry to one row, the id read first.\<close>

definition entry_record :: "schema \<Rightarrow> json \<Rightarrow> py_error + CatalogRecord" where
  "entry_record sch e =
     (case subscr e (StrKey ''id'') of
        Inl err \<Rightarrow> Inl err
      | Inr c \<Rightarrow>
         (case subscr e (StrKey (name_key sch)) of
            Inl err \<Rightarrow> Inl err
          | Inr n \<Rightarrow> Inr \<lparr>code = c, name = n\<rparr>))"

text \<open>
  Cell 5: \<^verbatim>\<open>for i in indicatorsJSON[1]: IDSindicators = (i["id"], i["name"])\<close>.
  The result is the sequence of tuples the loop produces; an exception in any iteration
  leaves the cell without one.
\<close>

fun flat_loop :: "json list \<Rightarrow> py_error + CatalogRecord list" where
  "flat_loop [] = Inr []"
| "flat_loop (i # rest) =
     (case entry_record FlatArray i of
        Inl err \<Rightarrow> Inl err
      | Inr r \<Rightarrow> (case flat_loop rest of Inl err \<Rightarrow> Inl err | Inr rs \<Rightarrow> Inr (r # rs)))"

text \<open>
  Cells 7 and 8: \<^verbatim>\<open>for i in range(0,listLen): code = dlocations[i]["id"];
  name = dlocations[i]["value"]; df = df.append(...)\<close>. The first argument is
  \<^verbatim>\<open>dlocations\<close>, the second the indices still to visit. \<^verbatim>\<open>df.append\<close> adds the row
  at the end, as it does in the pandas the notebook was run with; the result is the
  sequence of rows of \<^verbatim>\<open>dlocationsList\<close>, which is bound only when the loop has finished.
\<close>

fun range_loop :: "json \<Rightarrow> nat list \<Rightarrow> py_error + CatalogRecord list" where
  "range_loop d [] = Inr []"
| "range_loop d (i # rest) =
     (case subscr d (IntKey i) of
        Inl err \<Rightarrow> Inl err
      | Inr e \<Rightarrow>
         (case entry_record NestedVariable e of
            Inl err \<Rightarrow> Inl err
          | Inr r \<Rightarrow> (case range_loop d rest of Inl err \<Rightarrow> Inl err | Inr rs \<Rightarrow> Inr (r # rs))))"

text \<open>Where the entries are: \<^verbatim>\<open>indicatorsJSON[1]\<close>, or
  \<^verbatim>\<open>dlocationsJSON["source"][0]["concept"][0]["variable"]\<close>.\<close>

fun path :: "json \<Rightarrow> pykey list \<Rightarrow> py_error + json" where
  "path v [] = Inr v"
| "path v (k # ks) = (case subscr v k of Inl err \<Rightarrow> Inl err | Inr v' \<Rightarrow> path v' ks)"

fun locate :: "schema \<Rightarrow> json \<Rightarrow> py_error + json" where
  "locate FlatArray env = path env [IntKey 1]"
| "locate NestedVariable env =
     path env [StrKey ''source'', IntKey 0, StrKey ''concept'', IntKey 0, StrKey ''variable'']"

fun extractRecords :: "schema \<Rightarrow> json \<Rightarrow> py_error + CatalogRecord list" where
  "extractRecords FlatArray env =
     (case locate FlatArray env of
        Inl err \<Rightarrow> Inl err
      | Inr d \<Rightarrow> (case py_iter d of Inl err \<Rightarrow> Inl err | Inr items \<Rightarrow> flat_loop items))"
| "extractRecords NestedVariable env =
     (case locate NestedVariable env of
        Inl err \<Rightarrow> Inl err
      | Inr d \<Rightarrow> (case py_len d of Inl err \<Rightarrow> Inl err | Inr n \<Rightarrow> range_loop d [0..<n]))"

section \<open>Requests and the transport\<close>

text \<open>
  The parts of the request URL that vary between the cells, as in
  \<^verbatim>\<open>http://api.worldbank.org/v2/indicator?format=json&source=6&per_page=500\<close>: the path
  after \<^verbatim>\<open>v2/\<close>, the \<^verbatim>\<open>per_page\<close> parameter and the \<^verbatim>\<open>source\<close> parameter, each of the
  last two absent from some URLs. No cell ever sends a \<^verbatim>\<open>page\<close> parameter.
\<close>

record request =
  resourcePath :: string
  per_page :: "nat option"
  source_id :: "nat option"

text \<open>
  \<^verbatim>\<open>requests.get(url).json()\<close> is the one effect of the cells: it reads, and may change,
  the world outside the notebook, and it either raises or returns the decoded body.
\<close>

type_synonym 'w transport = "request \<Rightarrow> 'w \<Rightarrow> (py_error + json) \<times> 'w"

text \<open>
  Cells 5, 7 and 8 as one operation: a single GET, then the extraction loop of the
  response's shape. Nothing compares the number of rows with the \<^verbatim>\<open>total\<close> of the
  paging metadata, and no further page is requested.
\<close>

definition fetchAll :: "'w transport \<Rightarrow> schema \<Rightarrow> request \<Rightarrow> 'w \<Rightarrow> (py_error + CatalogRecord list) \<times> 'w" where
  "fetchAll get sch req w =
     (case get req w of
        (Inl err, w') \<Rightarrow> (Inl err, w')
      | (Inr env, w') \<Rightarrow> (extractRecords sch env, w'))"

text \<open>Cells 3 and 4: a GET, then \<^verbatim>\<open>indicatorsJSON[0]["total"]\<close>.\<close>

definition fetchTotalCount :: "'w transport \<Rightarrow> request \<Rightarrow> 'w \<Rightarrow> (py_error + json) \<times> 'w" where
  "fetchTotalCount get req w =
     (case get req w of
        (Inl err, w') \<Rightarrow> (Inl err, w')
      | (Inr env, w') \<Rightarrow> (path env [IntKey 0, StrKey ''total''], w'))"

section \<open>Scanning for a code (notebook part 1, cell 6)\<close>

text \<open>
  \<^verbatim>\<open>for dict_entity in indicatorsJSON[1]:
      if dict_entity["id"] == indicator: print(dict_entity["sourceNote"])
      else: pass\<close>
  The loop has no \<^verbatim>\<open>break\<close>: it visits every entry and acts on every match. Its outcome
  is what it has produced so far together with the exception that stopped it, if any.
  The action on a match is a parameter: the cell's own action reads one key of the entry.
\<close>

fun scan :: "(json \<Rightarrow> py_error + 'a) \<Rightarrow> string \<Rightarrow> json list \<Rightarrow> 'a list \<times> py_error option" where
  "scan act indicator [] = ([], None)"
| "scan act indicator (dict_entity # rest) =
     (case subscr dict_entity (StrKey ''id'') of
        Inl err \<Rightarrow> ([], Some err)
      | Inr v \<Rightarrow>
         if v = JStr indicator then
           (case act dict_entity of
              Inl err \<Rightarrow> ([], Some err)
            | Inr a \<Rightarrow> (case scan act indicator rest of (out, r) \<Rightarrow> (a # out, r)))
         else scan act indicator rest)"

definition scan_envelope :: "(json \<Rightarrow> py_error + 'a) \<Rightarrow> json \<Rightarrow> string \<Rightarrow> 'a list \<times> py_error option" where
  "scan_envelope act env indicator =
     (case locate FlatArray env of
        Inl err \<Rightarrow> ([], Some err)
      | Inr d \<Rightarrow> (case py_iter d of Inl err \<Rightarrow> ([], Some err) | Inr items \<Rightarrow> scan act indicator items))"

text \<open>The entries the loop selects: the scan with the entry itself as the action's result.\<close>

definition lookup :: "json \<Rightarrow> string \<Rightarrow> json list \<times> py_error option" where
  "lookup env indicator = scan_envelope Inr env indicator"

text \<open>The cell as written, with the key \<^verbatim>\<open>"sourceNote"\<close> as the parameter \<open>field\<close>.\<close>

definition findMetadata :: "json \<Rightarrow> string \<Rightarrow> string \<Rightarrow> json list \<times> py_error option" where
  "findMetadata env indicator field = scan_envelope (\<lambda>e. subscr e (StrKey field)) env indicator"



section \<open>A paging server\<close>

text \<open>
  Modelled from the spec: the World Bank API itself is not part of the repository. The
  specification's envelope carries paging metadata \<open>page\<close>, \<open>pages\<close>, \<open>per_page\<close>,
  \<open>total\<close> and one page of entries; the notebooks add that the default page size is 50.
  The server holds a whole catalog and answers every GET with its first page, the only
  one the cells ever ask for. The world it runs in is the log of the requests received.
\<close>

record fixture =
  shape :: schema
  entries :: "json list"

definition page_size :: "request \<Rightarrow> nat" where
  "page_size req = (case per_page req of None \<Rightarrow> 50 | Some n \<Rightarrow> n)"

definition paging :: "fixture \<Rightarrow> request \<Rightarrow> (string \<times> json) list" where
  "paging fx req =
     [(''page'', JNum 1),
      (''pages'', JNum (of_nat ((length (entries fx) + page_size req - 1) div page_size req))),
      (''per_page'', JNum (of_nat (page_size req))),
      (''total'', JNum (of_nat (length (entries fx))))]"

definition wb_response :: "fixture \<Rightarrow> request \<Rightarrow> json" where
  "wb_response fx req =
     (let page = take (page_size req) (entries fx) in
      case shape fx of
        FlatArray \<Rightarrow> JArr [JObj (paging fx req), JArr page]
      | NestedVariable \<Rightarrow>
          JObj (paging fx req @
            [(''source'', JArr [JObj [(''concept'', JArr [JObj [(''variable'', JArr page)]])]])]))"

definition wb_get :: "fixture \<Rightarrow> request list transport" where
  "wb_get fx req seen = (Inr (wb_response fx req), seen @ [req])"

section \<open>Recorded responses\<close>

text \<open>
  The indicator \<^verbatim>\<open>DT.DOD.DLXF.CD\<close> as the notebook shows it: its name from the text
  before cell 6 and its \<^verbatim>\<open>sourceNote\<close> from the recorded output of that cell.
\<close>

definition indicator_DLXF :: json where
  "indicator_DLXF = JObj
     [(''id'', JStr ''DT.DOD.DLXF.CD''),
      (''name'', JStr ''External debt stocks, long-term (DOD, current US$)''),
      (''sourceNote'', JStr ''Long-term debt is debt that has an original or extended maturity of more than one year. It has three components: public, publicly guaranteed, and private nonguaranteed debt. Data are in current U.S. dollars.'')]"

text \<open>A response to the request of cell 5 (\<^verbatim>\<open>source=6\<close>, \<^verbatim>\<open>per_page=500\<close>, 569 indicators
  in total) holding that indicator.\<close>

definition indicatorsJSON :: json where
  "indicatorsJSON = JArr
     [JObj [(''page'', JNum 1), (''pages'', JNum 2), (''per_page'', JNum 500), (''total'', JNum 569)],
      JArr [indicator_DLXF]]"

text \<open>The ten debtor locations that cell 7 prints, in the order it prints them, and a
  response to its request (\<^verbatim>\<open>sources/6/country\<close>) holding them.\<close>

definition location :: "string \<Rightarrow> string \<Rightarrow> json" where
  "location c n = JObj [(''id'', JStr c), (''value'', JStr n)]"

definition dlocations :: "json list" where
  "dlocations =
     [location ''AFG'' ''Afghanistan'', location ''AGO'' ''Angola'', location ''ALB'' ''Albania'',
      location ''ARG'' ''Argentina'', location ''ARM'' ''Armenia'', location ''AZE'' ''Azerbaijan'',
      location ''BDI'' ''Burundi'', location ''BEN'' ''Benin'', location ''BFA'' ''Burkina Faso'',
      location ''BGD'' ''Bangladesh'']"

definition dlocationsJSON :: json where
  "dlocationsJSON = JObj
     [(''page'', JNum 1), (''pages'', JNum 1), (''per_page'', JNum 300), (''total'', JNum 10),
      (''source'', JArr [JObj [(''id'', JStr ''6''), (''name'', JStr ''International Debt Statistics''),
         (''concept'', JArr [JObj [(''id'', JStr ''Country''), (''variable'', JArr dlocations)]])]])]"

text \<open>The requests of cells 3, 5 and 7.\<close>

definition indicators_default_request :: request where
  "indicators_default_request = \<lparr>resourcePath = ''indicator'', per_page = None, source_id = Some 6\<rparr>"

definition indicators_request :: request where
  "indicators_request = \<lparr>resourcePath = ''indicator'', per_page = Some 500, source_id = Some 6\<rparr>"

definition dlocations_request :: request where
  "dlocations_request = \<lparr>resourcePath = ''sources/6/country'', per_page = Some 300, source_id = None\<rparr>"

text \<open>A server holding the ten debtor locations.\<close>

definition debtor_catalog :: fixture where
  "debtor_catalog = \<lparr>shape = NestedVariable, entries = dlocations\<rparr>"

text \<open>A catalog of 569 indicators with distinct ids, for a server that reports
  \<open>total = 569\<close>.\<close>

definition numbered_indicator :: "nat \<Rightarrow> json" where
  "numbered_indicator n =
     JObj [(''id'', JStr (''IND.'' @ replicate n (CHR ''I''))), (''name'', JStr ''indicator'')]"

definition catalog569 :: fixture where
  "catalog569 = \<lparr>shape = FlatArray, entries = map numbered_indicator [0..<569]\<rparr>"

section \<open>Unit conversion and region names (notebook part 2)\<close>

text \<open>
  Rounding an exact value to the nearest integer, a tie going to the even one: what
  Python 3's \<^verbatim>\<open>round\<close> does with the value of a finite float, and what pandas does
  with each finite element of a float column.
\<close>

definition round_half_even :: "rat \<Rightarrow> int" where
  "round_half_even y =
     (let f = \<lfloor>y\<rfloor>; d = y - of_int f in
      if d < 1 / 2 then f
      else if 1 / 2 < d then f + 1
      else if even f then f else f + 1)"

text \<open>
  Python floats and the elements of a float column are IEEE 754 doubles: 53 significant
  bits, exponents from \<open>-1022\<close> to \<open>1023\<close>, below that the fixed spacing \<open>2 powi (-1074)\<close>.
  \<open>binary_exponent q\<close> is the \<open>e\<close> with \<open>2 powi e \<le> \<bar>q\<bar> < 2 powi (e + 1)\<close>, \<open>ulp q\<close> the spacing
  of the doubles around \<open>q\<close>, and \<open>nearest_double q\<close> the correctly rounded result of an
  operation whose exact result is \<open>q\<close>: the multiple of \<open>ulp q\<close> nearest to \<open>q\<close>, a tie
  going to the even multiple. A result of magnitude \<open>2 ^ 1024\<close> or more is out of range.
\<close>

definition binary_exponent :: "rat \<Rightarrow> int" where
  "binary_exponent q =
     (case quotient_of \<bar>q\<bar> of (a, b) \<Rightarrow>
        (let d = bitlen a - bitlen b in if 2 powi d \<le> \<bar>q\<bar> then d else d - 1))"

definition ulp :: "rat \<Rightarrow> rat" where
  "ulp q = 2 powi (max (binary_exponent q) (- 1022) - 52)"

definition nearest_double :: "rat \<Rightarrow> rat" where
  "nearest_double q = (if q = 0 then 0 else of_int (round_half_even (q / ulp q)) * ulp q)"

text \<open>A float: a finite value (\<open>Finite 0\<close> is \<open>0.0\<close>), \<open>-0.0\<close>, an infinity or NaN.\<close>

datatype pyfloat = Finite rat | NegZero | PosInf | NegInf | NaN

text \<open>The float for a rounded result \<open>r\<close> of the given sign: it overflows to an infinity,
  and a negative result that rounds to zero is \<open>-0.0\<close>.\<close>

definition as_float :: "bool \<Rightarrow> rat \<Rightarrow> pyfloat" where
  "as_float negative r =
     (if 2 ^ 1024 \<le> \<bar>r\<bar> then (if negative then NegInf else PosInf)
      else if r = 0 \<and> negative then NegZero
      else Finite r)"

text \<open>\<^verbatim>\<open>x/1000000000\<close> for a float \<open>x\<close> (the divisor is converted to \<open>1e9\<close>, exactly).\<close>

fun float_div_billion :: "pyfloat \<Rightarrow> pyfloat" where
  "float_div_billion (Finite x) = as_float (x < 0) (nearest_double (x / 1000000000))"
| "float_div_billion NegZero = NegZero"
| "float_div_billion PosInf = PosInf"
| "float_div_billion NegInf = NegInf"
| "float_div_billion NaN = NaN"

text \<open>\<^verbatim>\<open>x/1000000000\<close> for an int \<open>x\<close>: the exact quotient of the two ints, correctly
  rounded; OverflowError when the result is too large for a float.\<close>

definition int_div_billion :: "int \<Rightarrow> py_error + pyfloat" where
  "int_div_billion n =
     (let r = nearest_double (of_int n / 1000000000)
      in if 2 ^ 1024 \<le> \<bar>r\<bar> then Inl OverflowError else Inr (Finite r))"

text \<open>\<^verbatim>\<open>round(y)\<close> for a float \<open>y\<close>: an int, ValueError for NaN, OverflowError for an
  infinity.\<close>

fun round_float :: "pyfloat \<Rightarrow> py_error + int" where
  "round_float (Finite y) = Inr (round_half_even y)"
| "round_float NegZero = Inr 0"
| "round_float PosInf = Inl OverflowError"
| "round_float NegInf = Inl OverflowError"
| "round_float NaN = Inl ValueError"

text \<open>One element of \<^verbatim>\<open>round(column)\<close>: still a float, the sign kept when a negative
  value rounds to zero, NaN and the infinities unchanged.\<close>

fun rint :: "pyfloat \<Rightarrow> pyfloat" where
  "rint (Finite y) =
     (let m = round_half_even y in if m = 0 \<and> y < 0 then NegZero else Finite (of_int m))"
| "rint NegZero = NegZero"
| "rint PosInf = PosInf"
| "rint NegInf = NegInf"
| "rint NaN = NaN"

text \<open>
  What \<^verbatim>\<open>formatNum\<close> is applied to: the notebook passes the float column
  \<^verbatim>\<open>EXDreshaped.ExternalDebtStock\<close>; the function itself also takes a plain int or float.
\<close>

datatype pyval = PyInt int | PyFloat pyfloat | Series "pyfloat list"

fun truediv_billion :: "pyval \<Rightarrow> py_error + pyval" where
  "truediv_billion (PyInt n) =
     (case int_div_billion n of Inl err \<Rightarrow> Inl err | Inr y \<Rightarrow> Inr (PyFloat y))"
| "truediv_billion (PyFloat x) = Inr (PyFloat (float_div_billion x))"
| "truediv_billion (Series xs) = Inr (Series (map float_div_billion xs))"

fun round_builtin :: "pyval \<Rightarrow> py_error + pyval" where
  "round_builtin (PyInt n) = Inr (PyInt n)"
| "round_builtin (PyFloat y) =
     (case round_float y of Inl err \<Rightarrow> Inl err | Inr z \<Rightarrow> Inr (PyInt z))"
| "round_builtin (Series ys) = Inr (Series (map rint ys))"

text \<open>\<^verbatim>\<open>def formatNum(x): y = x/1000000000; z = round(y); return(z)\<close>.\<close>

definition formatNum :: "pyval \<Rightarrow> py_error + pyval" where
  "formatNum x =
     (case truediv_billion x of
        Inl err \<Rightarrow> Inl err
      | Inr y \<Rightarrow> (case round_builtin y of Inl err \<Rightarrow> Inl err | Inr z \<Rightarrow> Inr z))"

text \<open>
  \<^verbatim>\<open>s.replace(old, new)\<close> on one string: every occurrence of \<open>old\<close>, found from the left
  and not overlapping an earlier one, becomes \<open>new\<close>. \<open>replace_from\<close> is the scan for a
  non-empty \<open>old\<close>; an empty \<open>old\<close> matches before every character and at the end.
\<close>

fun replace_from :: "string \<Rightarrow> string \<Rightarrow> string \<Rightarrow> string" where
  "replace_from old new [] = []"
| "replace_from old new (c # cs) =
     (if prefix old (c # cs) then new @ replace_from old new (drop (length old - 1) cs)
      else c # replace_from old new cs)"

definition str_replace :: "string \<Rightarrow> string \<Rightarrow> string \<Rightarrow> string" where
  "str_replace old new s =
     (if old = [] then new @ concat (map (\<lambda>c. c # new) s) else replace_from old new s)"

text \<open>
  \<^verbatim>\<open>EXDclean["Region"].str.replace("excluding high income","").str.replace(")","").str.replace("(","")\<close>
  on one region name. The first pattern has no regular-expression metacharacter and the
  other two are single characters, which pandas takes literally.
\<close>

definition region_cleanup :: "string \<Rightarrow> string" where
  "region_cleanup s =
     str_replace ''('' '''' (str_replace '')'' '''' (str_replace ''excluding high income'' '''' s))"

section \<open>The extraction loops\<close>

lemma entry_record_Inr:
  "entry_record sch e = Inr r \<longleftrightarrow>
     subscr e (StrKey ''id'') = Inr (code r) \<and> subscr e (StrKey (name_key sch)) = Inr (name r)"
  by (cases r) (auto simp: entry_record_def split: sum.splits)

lemma entry_record_not_dict:
  "entry_record sch (JStr s) = Inl TypeError"
  by (simp add: entry_record_def)

lemma flat_loop_Inr:
  "flat_loop es = Inr recs \<longleftrightarrow> map (entry_record FlatArray) es = map Inr recs"
proof (induction es arbitrary: recs)
  case Nil
  show ?case by auto
next
  case (Cons e es)
  show ?case
  proof (cases recs)
    case Nil
    then show ?thesis by (auto split: sum.splits)
  next
    case (Cons r rs)
    with Cons.IH [of rs] show ?thesis by (auto split: sum.splits)
  qed
qed

lemma range_loop_Inr:
  "range_loop d ns = Inr recs \<longleftrightarrow>
     map (\<lambda>i. case subscr d (IntKey i) of Inl err \<Rightarrow> Inl err | Inr e \<Rightarrow> entry_record NestedVariable e) ns
       = map Inr recs"
proof (induction ns arbitrary: recs)
  case Nil
  show ?case by auto
next
  case (Cons n ns)
  show ?case
  proof (cases recs)
    case Nil
    then show ?thesis by (auto split: sum.splits)
  next
    case (Cons r rs)
    with Cons.IH [of rs] show ?thesis by (auto split: sum.splits)
  qed
qed

lemma flat_loop_first_error:
  assumes "i < length es" "\<forall>j<i. \<exists>r. entry_record FlatArray (es ! j) = Inr r"
    "entry_record FlatArray (es ! i) = Inl err"
  shows "flat_loop es = Inl err"
  using assms
proof (induction es arbitrary: i)
  case Nil then show ?case by simp
next
  case (Cons e es)
  show ?case
  proof (cases i)
    case 0 with Cons.prems show ?thesis by simp
  next
    case (Suc k)
    from Cons.prems(2) Suc obtain r where r: "entry_record FlatArray e = Inr r" by fastforce
    have "flat_loop es = Inl err"
      using Cons.prems Suc by (intro Cons.IH [of k]) auto
    with r show ?thesis by simp
  qed
qed


lemma range_loop_first_error:
  assumes "i < length ns"
    "\<forall>j<i. \<exists>e r. subscr d (IntKey (ns ! j)) = Inr e \<and> entry_record NestedVariable e = Inr r"
    "subscr d (IntKey (ns ! i)) = Inr e" "entry_record NestedVariable e = Inl err"
  shows "range_loop d ns = Inl err"
  using assms
proof (induction ns arbitrary: i)
  case Nil then show ?case by simp
next
  case (Cons n ns)
  show ?case
  proof (cases i)
    case 0 with Cons.prems show ?thesis by simp
  next
    case (Suc k)
    from Cons.prems(2) Suc obtain e0 r where r: "subscr d (IntKey n) = Inr e0"
      "entry_record NestedVariable e0 = Inr r" by fastforce
    have "range_loop d ns = Inl err"
      using Cons.prems Suc by (intro Cons.IH [of k]) auto
    with r show ?thesis by simp
  qed
qed

lemma map_items_array:
  "map (\<lambda>i. case subscr (JArr es) (IntKey i) of Inl err \<Rightarrow> Inl err | Inr e \<Rightarrow> f e) [0..<length es]
     = map f es"
  by (rule nth_equalityI) auto

lemma extract_array:
  assumes "locate sch env = Inr (JArr es)"
  shows "extractRecords sch env = Inr recs \<longleftrightarrow> map (entry_record sch) es = map Inr recs"
proof (cases sch)
  case FlatArray
  with assms show ?thesis by (simp add: flat_loop_Inr)
next
  case NestedVariable
  with assms show ?thesis
    by (simp del: locate.simps subscr.simps add: range_loop_Inr map_items_array)
qed

lemma extract_first_error:
  assumes "locate sch env = Inr (JArr es)" "i < length es"
    "\<forall>j<i. \<exists>r. entry_record sch (es ! j) = Inr r"
    "entry_record sch (es ! i) = Inl err"
  shows "extractRecords sch env = Inl err"
proof (cases sch)
  case FlatArray
  with assms show ?thesis by (simp add: flat_loop_first_error [of i])
next
  case NestedVariable
  have "range_loop (JArr es) [0..<length es] = Inl err"
    using assms(2-4) NestedVariable
    by (intro range_loop_first_error [of i _ _ "es ! i"]) auto
  with assms(1) NestedVariable show ?thesis by simp
qed

lemma extract_Inr:
  assumes "extractRecords sch env = Inr recs"
  shows "\<exists>d. locate sch env = Inr d \<and> py_len d = Inr (length recs)
           \<and> (\<forall>i<length recs. \<exists>e. subscr d (IntKey i) = Inr e \<and> entry_record sch e = Inr (recs ! i))"
proof (cases sch)
  case FlatArray
  with assms obtain d items where d: "locate FlatArray env = Inr d" "py_iter d = Inr items"
    "flat_loop items = Inr recs"
    by (auto split: sum.splits)
  from d(3) have m: "map (entry_record FlatArray) items = map Inr recs"
    by (simp add: flat_loop_Inr)
  then have l: "length items = length recs" by (metis length_map)
  have e: "entry_record FlatArray (items ! i) = Inr (recs ! i)" if "i < length recs" for i
    using m that l by (metis nth_map)
  have "py_len d = Inr (length recs)
         \<and> (\<forall>i<length recs. \<exists>e. subscr d (IntKey i) = Inr e \<and> entry_record FlatArray e = Inr (recs ! i))"
  proof (cases d)
    case (JArr xs)
    with d(2) l e show ?thesis by auto
  next
    case (JObj kvs)
    with d(2) have "items = map JStr (dict_keys kvs)" by simp
    then have "\<exists>s. items ! 0 = JStr s" if "recs \<noteq> []"
      using that l by (cases "dict_keys kvs") auto
    with e [of 0] have "recs = []"
      by (cases recs) (auto simp: entry_record_not_dict)
    with l JObj d(2) show ?thesis by auto
  next
    case (JStr s)
    with d(2) have "items = map (\<lambda>c. JStr [c]) s" by simp
    then have "\<exists>s. items ! 0 = JStr s" if "recs \<noteq> []"
      using that l by (cases s) auto
    with e [of 0] have "recs = []"
      by (cases recs) (auto simp: entry_record_not_dict)
    with l JStr d(2) show ?thesis by auto
  qed (use d(2) in auto)
  with d(1) FlatArray show ?thesis by simp
next
  case NestedVariable
  with assms obtain d n where d: "locate NestedVariable env = Inr d" "py_len d = Inr n"
    "range_loop d [0..<n] = Inr recs"
    by (auto split: sum.splits)
  let ?f = "\<lambda>i. case subscr d (IntKey i) of Inl err \<Rightarrow> Inl err | Inr e \<Rightarrow> entry_record NestedVariable e"
  from d(3) have m: "map ?f [0..<n] = map Inr recs"
    by (simp add: range_loop_Inr)
  then have l: "n = length recs" by (metis length_map length_upt minus_nat.diff_0)
  have "\<exists>e. subscr d (IntKey i) = Inr e \<and> entry_record NestedVariable e = Inr (recs ! i)"
    if "i < length recs" for i
  proof -
    have "map ?f [0..<n] ! i = map Inr recs ! i" using m by simp
    then have "?f i = Inr (recs ! i)" using that l by simp
    then show ?thesis by (auto split: sum.splits)
  qed
  with d(1,2) l NestedVariable show ?thesis by auto
qed

lemma dlocations_records: "extractRecords NestedVariable dlocationsJSON =
  Inr [\<lparr>code = JStr ''AFG'', name = JStr ''Afghanistan''\<rparr>,
       \<lparr>code = JStr ''AGO'', name = JStr ''Angola''\<rparr>,
       \<lparr>code = JStr ''ALB'', name = JStr ''Albania''\<rparr>,
       \<lparr>code = JStr ''ARG'', name = JStr ''Argentina''\<rparr>,
       \<lparr>code = JStr ''ARM'', name = JStr ''Armenia''\<rparr>,
       \<lparr>code = JStr ''AZE'', name = JStr ''Azerbaijan''\<rparr>,
       \<lparr>code = JStr ''BDI'', name = JStr ''Burundi''\<rparr>,
       \<lparr>code = JStr ''BEN'', name = JStr ''Benin''\<rparr>,
       \<lparr>code = JStr ''BFA'', name = JStr ''Burkina Faso''\<rparr>,
       \<lparr>code = JStr ''BGD'', name = JStr ''Bangladesh''\<rparr>]"
  by code_simp

lemma rows_iff:
  "map (entry_record sch) es = map Inr recs \<longleftrightarrow>
     length recs = length es
     \<and> (\<forall>i<length es. subscr (es ! i) (StrKey ''id'') = Inr (code (recs ! i))
            \<and> subscr (es ! i) (StrKey (name_key sch)) = Inr (name (recs ! i)))"
  by (auto simp: list_eq_iff_nth_eq entry_record_Inr)

lemma locate_flat_envelope:
  "locate FlatArray (JArr (p # JArr es # others)) = Inr (JArr es)"
  by simp

lemma locate_nested_envelope:
  "locate NestedVariable
     (JObj (meta @ [(''source'', JArr (JObj (smeta @ [(''concept'',
        JArr (JObj (cmeta @ [(''variable'', JArr es)]) # cs))]) # ss))]))
   = Inr (JArr es)"
  by simp

lemma locate_flat_Inr:
  "locate FlatArray env = Inr d \<Longrightarrow> subscr env (IntKey 1) = Inr d"
  by (auto split: sum.splits)

lemma locate_nested_Inr:
  "locate NestedVariable env = Inr d \<Longrightarrow>
     \<exists>s s0 c c0. subscr env (StrKey ''source'') = Inr s \<and> subscr s (IntKey 0) = Inr s0
        \<and> subscr s0 (StrKey ''concept'') = Inr c \<and> subscr c (IntKey 0) = Inr c0
        \<and> subscr c0 (StrKey ''variable'') = Inr d"
  by (auto split: sum.splits)

text \<open>
  C8. Extraction keeps every entry, in order. Whenever the loop of either shape succeeds
  on an envelope, the container it read from that envelope (its second element, or what
  lies under \<open>source[0].concept[0].variable\<close>) has exactly as many items as there are
  rows, and row \<open>i\<close> holds the \<open>id\<close> of item \<open>i\<close> as its code and that item's \<open>value\<close>
  (\<open>name\<close> in the flat shape) as its name. On an envelope of either shape that holds the
  list of entries \<open>es\<close>, the rows returned are exactly those with one row per entry of
  \<open>es\<close>, row \<open>i\<close> made of the two keys of \<open>es ! i\<close>. On the recorded debtor-locations
  response the first row is AFG, Afghanistan.
\<close>

theorem extractRecords_keeps_every_entry:
  "(extractRecords FlatArray env = Inr recs \<longrightarrow>
      (\<exists>d. subscr env (IntKey 1) = Inr d \<and> py_len d = Inr (length recs)
         \<and> (\<forall>i<length recs. \<exists>e. subscr d (IntKey i) = Inr e
               \<and> subscr e (StrKey ''id'') = Inr (code (recs ! i))
               \<and> subscr e (StrKey ''name'') = Inr (name (recs ! i)))))
   \<and> (extractRecords NestedVariable env = Inr recs \<longrightarrow>
      (\<exists>s s0 c c0 d. subscr env (StrKey ''source'') = Inr s \<and> subscr s (IntKey 0) = Inr s0
         \<and> subscr s0 (StrKey ''concept'') = Inr c \<and> subscr c (IntKey 0) = Inr c0
         \<and> subscr c0 (StrKey ''variable'') = Inr d \<and> py_len d = Inr (length recs)
         \<and> (\<forall>i<length recs. \<exists>e. subscr d (IntKey i) = Inr e
               \<and> subscr e (StrKey ''id'') = Inr (code (recs ! i))
               \<and> subscr e (StrKey ''value'') = Inr (name (recs ! i)))))
   \<and> (extractRecords FlatArray (JArr (p # JArr es # others)) = Inr recs \<longleftrightarrow>
        length recs = length es
        \<and> (\<forall>i<length es. subscr (es ! i) (StrKey ''id'') = Inr (code (recs ! i))
               \<and> subscr (es ! i) (StrKey ''name'') = Inr (name (recs ! i))))
   \<and> (extractRecords NestedVariable
         (JObj (meta @ [(''source'', JArr (JObj (smeta @ [(''concept'',
            JArr (JObj (cmeta @ [(''variable'', JArr es)]) # cs))]) # ss))])) = Inr recs \<longleftrightarrow>
        length recs = length es
        \<and> (\<forall>i<length es. subscr (es ! i) (StrKey ''id'') = Inr (code (recs ! i))
               \<and> subscr (es ! i) (StrKey ''value'') = Inr (name (recs ! i))))
   \<and> (\<exists>rest. extractRecords NestedVariable dlocationsJSON =
          Inr (\<lparr>code = JStr ''AFG'', name = JStr ''Afghanistan''\<rparr> # rest))"
proof -
  have flat: "\<exists>d. subscr env (IntKey 1) = Inr d \<and> py_len d = Inr (length recs)
         \<and> (\<forall>i<length recs. \<exists>e. subscr d (IntKey i) = Inr e
               \<and> subscr e (StrKey ''id'') = Inr (code (recs ! i))
               \<and> subscr e (StrKey ''name'') = Inr (name (recs ! i)))"
    if a: "extractRecords FlatArray env = Inr recs"
  proof -
    from extract_Inr [OF a] obtain d where d: "locate FlatArray env = Inr d"
      "py_len d = Inr (length recs)"
      "\<forall>i<length recs. \<exists>e. subscr d (IntKey i) = Inr e \<and> entry_record FlatArray e = Inr (recs ! i)"
      by blast
    from d(3) have "\<forall>i<length recs. \<exists>e. subscr d (IntKey i) = Inr e
               \<and> subscr e (StrKey ''id'') = Inr (code (recs ! i))
               \<and> subscr e (StrKey ''name'') = Inr (name (recs ! i))"
      by (simp add: entry_record_Inr)
    with locate_flat_Inr [OF d(1)] d(2) show ?thesis by blast
  qed
  have nested: "\<exists>s s0 c c0 d. subscr env (StrKey ''source'') = Inr s \<and> subscr s (IntKey 0) = Inr s0
         \<and> subscr s0 (StrKey ''concept'') = Inr c \<and> subscr c (IntKey 0) = Inr c0
         \<and> subscr c0 (StrKey ''variable'') = Inr d \<and> py_len d = Inr (length recs)
         \<and> (\<forall>i<length recs. \<exists>e. subscr d (IntKey i) = Inr e
               \<and> subscr e (StrKey ''id'') = Inr (code (recs ! i))
               \<and> subscr e (StrKey ''value'') = Inr (name (recs ! i)))"
    if a: "extractRecords NestedVariable env = Inr recs"
  proof -
    from extract_Inr [OF a] obtain d where d: "locate NestedVariable env = Inr d"
      "py_len d = Inr (length recs)"
      "\<forall>i<length recs. \<exists>e. subscr d (IntKey i) = Inr e \<and> entry_record NestedVariable e = Inr (recs ! i)"
      by blast
    from d(3) have "\<forall>i<length recs. \<exists>e. subscr d (IntKey i) = Inr e
               \<and> subscr e (StrKey ''id'') = Inr (code (recs ! i))
               \<and> subscr e (StrKey ''value'') = Inr (name (recs ! i))"
      by (simp add: entry_record_Inr)
    with locate_nested_Inr [OF d(1)] d(2) show ?thesis by blast
  qed
  have flat_iff: "extractRecords FlatArray (JArr (p # JArr es # others)) = Inr recs \<longleftrightarrow>
        length recs = length es
        \<and> (\<forall>i<length es. subscr (es ! i) (StrKey ''id'') = Inr (code (recs ! i))
               \<and> subscr (es ! i) (StrKey ''name'') = Inr (name (recs ! i)))"
    using extract_array [OF locate_flat_envelope, of p es others recs] rows_iff [of FlatArray es recs]
    by simp
  have nested_iff: "extractRecords NestedVariable
         (JObj (meta @ [(''source'', JArr (JObj (smeta @ [(''concept'',
            JArr (JObj (cmeta @ [(''variable'', JArr es)]) # cs))]) # ss))])) = Inr recs \<longleftrightarrow>
        length recs = length es
        \<and> (\<forall>i<length es. subscr (es ! i) (StrKey ''id'') = Inr (code (recs ! i))
               \<and> subscr (es ! i) (StrKey ''value'') = Inr (name (recs ! i)))"
    using extract_array [OF locate_nested_envelope, of meta smeta cmeta es cs ss recs]
      rows_iff [of NestedVariable es recs]
    by simp
  have fixture: "\<exists>rest. extractRecords NestedVariable dlocationsJSON =
          Inr (\<lparr>code = JStr ''AFG'', name = JStr ''Afghanistan''\<rparr> # rest)"
    unfolding dlocations_records by simp
  from flat nested flat_iff nested_iff fixture show ?thesis by (intro conjI impI)
qed

theorem extractRecords_keeps_every_entry_witness:
  "extractRecords FlatArray indicatorsJSON =
       Inr [\<lparr>code = JStr ''DT.DOD.DLXF.CD'', name = JStr ''External debt stocks, long-term (DOD, current US$)''\<rparr>]
   \<and> (\<exists>d e. subscr indicatorsJSON (IntKey 1) = Inr d \<and> py_len d = Inr 1
         \<and> subscr d (IntKey 0) = Inr e
         \<and> subscr e (StrKey ''id'') = Inr (JStr ''DT.DOD.DLXF.CD'')
         \<and> subscr e (StrKey ''name'') = Inr (JStr ''External debt stocks, long-term (DOD, current US$)''))
   \<and> extractRecords NestedVariable dlocationsJSON =
     Inr [\<lparr>code = JStr ''AFG'', name = JStr ''Afghanistan''\<rparr>,
       \<lparr>code = JStr ''AGO'', name = JStr ''Angola''\<rparr>,
       \<lparr>code = JStr ''ALB'', name = JStr ''Albania''\<rparr>,
       \<lparr>code = JStr ''ARG'', name = JStr ''Argentina''\<rparr>,
       \<lparr>code = JStr ''ARM'', name = JStr ''Armenia''\<rparr>,
       \<lparr>code = JStr ''AZE'', name = JStr ''Azerbaijan''\<rparr>,
       \<lparr>code = JStr ''BDI'', name = JStr ''Burundi''\<rparr>,
       \<lparr>code = JStr ''BEN'', name = JStr ''Benin''\<rparr>,
       \<lparr>code = JStr ''BFA'', name = JStr ''Burkina Faso''\<rparr>,
       \<lparr>code = JStr ''BGD'', name = JStr ''Bangladesh''\<rparr>]
   \<and> (\<exists>s s0 c c0 d e. subscr dlocationsJSON (StrKey ''source'') = Inr s \<and> subscr s (IntKey 0) = Inr s0
         \<and> subscr s0 (StrKey ''concept'') = Inr c \<and> subscr c (IntKey 0) = Inr c0
         \<and> subscr c0 (StrKey ''variable'') = Inr d \<and> py_len d = Inr 10
         \<and> subscr d (IntKey 0) = Inr e
         \<and> subscr e (StrKey ''id'') = Inr (JStr ''AFG'')
         \<and> subscr e (StrKey ''value'') = Inr (JStr ''Afghanistan''))
   \<and> length dlocations = 10
   \<and> subscr (dlocations ! 9) (StrKey ''id'') = Inr (JStr ''BGD'')
   \<and> subscr (dlocations ! 9) (StrKey ''value'') = Inr (JStr ''Bangladesh'')"
proof -
  let ?recs = "[\<lparr>code = JStr ''AFG'', name = JStr ''Afghanistan''\<rparr>,
       \<lparr>code = JStr ''AGO'', name = JStr ''Angola''\<rparr>,
       \<lparr>code = JStr ''ALB'', name = JStr ''Albania''\<rparr>,
       \<lparr>code = JStr ''ARG'', name = JStr ''Argentina''\<rparr>,
       \<lparr>code = JStr ''ARM'', name = JStr ''Armenia''\<rparr>,
       \<lparr>code = JStr ''AZE'', name = JStr ''Azerbaijan''\<rparr>,
       \<lparr>code = JStr ''BDI'', name = JStr ''Burundi''\<rparr>,
       \<lparr>code = JStr ''BEN'', name = JStr ''Benin''\<rparr>,
       \<lparr>code = JStr ''BFA'', name = JStr ''Burkina Faso''\<rparr>,
       \<lparr>code = JStr ''BGD'', name = JStr ''Bangladesh''\<rparr>]"
  let ?row = "\<lparr>code = JStr ''DT.DOD.DLXF.CD'',
      name = JStr ''External debt stocks, long-term (DOD, current US$)''\<rparr>"
  let ?paging = "JObj [(''page'', JNum 1), (''pages'', JNum 2), (''per_page'', JNum 500), (''total'', JNum 569)]"
  let ?meta = "[(''page'', JNum 1), (''pages'', JNum 1), (''per_page'', JNum 300), (''total'', JNum 10)]"
  let ?smeta = "[(''id'', JStr ''6''), (''name'', JStr ''International Debt Statistics'')]"
  let ?cmeta = "[(''id'', JStr ''Country'')]"
  note tf = extractRecords_keeps_every_entry [of indicatorsJSON "[?row]" ?paging "[indicator_DLXF]" "[]"]
  note tn = extractRecords_keeps_every_entry
    [of dlocationsJSON ?recs _ dlocations _ ?meta ?smeta ?cmeta "[]" "[]"]
  have fe: "JArr (?paging # JArr [indicator_DLXF] # []) = indicatorsJSON"
    by (simp add: indicatorsJSON_def)
  have ne: "JObj (?meta @ [(''source'', JArr (JObj (?smeta @ [(''concept'',
            JArr (JObj (?cmeta @ [(''variable'', JArr dlocations)]) # []))]) # []))]) = dlocationsJSON"
    by (simp add: dlocationsJSON_def)
  have fh: "length [?row] = length [indicator_DLXF]
        \<and> (\<forall>i<length [indicator_DLXF]. subscr ([indicator_DLXF] ! i) (StrKey ''id'') = Inr (code ([?row] ! i))
               \<and> subscr ([indicator_DLXF] ! i) (StrKey ''name'') = Inr (name ([?row] ! i)))"
    by (simp add: indicator_DLXF_def)
  from tf [THEN conjunct2, THEN conjunct2, THEN conjunct1, THEN iffD2, OF fh]
  have a: "extractRecords FlatArray indicatorsJSON = Inr [?row]"
    by (simp only: fe)
  from tf [THEN conjunct1, THEN mp, OF a] obtain d where d: "subscr indicatorsJSON (IntKey 1) = Inr d"
    "py_len d = Inr (length [?row])"
    "\<forall>i<length [?row]. \<exists>e. subscr d (IntKey i) = Inr e
        \<and> subscr e (StrKey ''id'') = Inr (code ([?row] ! i))
        \<and> subscr e (StrKey ''name'') = Inr (name ([?row] ! i))"
    by blast
  have "\<exists>e. subscr d (IntKey 0) = Inr e
        \<and> subscr e (StrKey ''id'') = Inr (code ([?row] ! 0))
        \<and> subscr e (StrKey ''name'') = Inr (name ([?row] ! 0))"
    using d(3) [THEN spec, of 0] by simp
  with d(1,2) have b: "\<exists>d e. subscr indicatorsJSON (IntKey 1) = Inr d \<and> py_len d = Inr 1
         \<and> subscr d (IntKey 0) = Inr e
         \<and> subscr e (StrKey ''id'') = Inr (JStr ''DT.DOD.DLXF.CD'')
         \<and> subscr e (StrKey ''name'') = Inr (JStr ''External debt stocks, long-term (DOD, current US$)'')"
    by auto
  have c: "extractRecords NestedVariable dlocationsJSON = Inr ?recs"
    by (rule dlocations_records)
  from tn [THEN conjunct2, THEN conjunct1, THEN mp, OF c] obtain s s0 k k0 v where
    v: "subscr dlocationsJSON (StrKey ''source'') = Inr s" "subscr s (IntKey 0) = Inr s0"
       "subscr s0 (StrKey ''concept'') = Inr k" "subscr k (IntKey 0) = Inr k0"
       "subscr k0 (StrKey ''variable'') = Inr v" "py_len v = Inr (length ?recs)"
       "\<forall>i<length ?recs. \<exists>e. subscr v (IntKey i) = Inr e
          \<and> subscr e (StrKey ''id'') = Inr (code (?recs ! i))
          \<and> subscr e (StrKey ''value'') = Inr (name (?recs ! i))"
    by blast
  have "\<exists>e. subscr v (IntKey 0) = Inr e
        \<and> subscr e (StrKey ''id'') = Inr (code (?recs ! 0))
        \<and> subscr e (StrKey ''value'') = Inr (name (?recs ! 0))"
    using v(7) [THEN spec, of 0] by simp
  then obtain e where e: "subscr v (IntKey 0) = Inr e"
    "subscr e (StrKey ''id'') = Inr (JStr ''AFG'')"
    "subscr e (StrKey ''value'') = Inr (JStr ''Afghanistan'')"
    by auto
  have l10: "length ?recs = 10" by simp
  from v(1-6) e l10 have g: "\<exists>s s0 c c0 d e. subscr dlocationsJSON (StrKey ''source'') = Inr s \<and> subscr s (IntKey 0) = Inr s0
         \<and> subscr s0 (StrKey ''concept'') = Inr c \<and> subscr c (IntKey 0) = Inr c0
         \<and> subscr c0 (StrKey ''variable'') = Inr d \<and> py_len d = Inr 10
         \<and> subscr d (IntKey 0) = Inr e
         \<and> subscr e (StrKey ''id'') = Inr (JStr ''AFG'')
         \<and> subscr e (StrKey ''value'') = Inr (JStr ''Afghanistan'')"
    by (metis (no_types, lifting))
  have c': "extractRecords NestedVariable
      (JObj (?meta @ [(''source'', JArr (JObj (?smeta @ [(''concept'',
            JArr (JObj (?cmeta @ [(''variable'', JArr dlocations)]) # []))]) # []))])) = Inr ?recs"
    using c by (simp only: ne)
  from tn [THEN conjunct2, THEN conjunct2, THEN conjunct2, THEN conjunct1, THEN iffD1, OF c']
  have h: "length ?recs = length dlocations"
    "\<forall>i<length dlocations. subscr (dlocations ! i) (StrKey ''id'') = Inr (code (?recs ! i))
        \<and> subscr (dlocations ! i) (StrKey ''value'') = Inr (name (?recs ! i))"
    by blast+
  from h(1) l10 have l: "length dlocations = 10" by (simp only:)
  from h(2) [THEN spec, of 9] l have i: "subscr (dlocations ! 9) (StrKey ''id'') = Inr (JStr ''BGD'')"
    "subscr (dlocations ! 9) (StrKey ''value'') = Inr (JStr ''Bangladesh'')"
    by simp_all
  from a b c g l i show ?thesis by (intro conjI)
qed

section \<open>Shapes and missing keys\<close>

lemma entry_record_missing_id:
  "''id'' \<notin> fst ` set kvs \<Longrightarrow> entry_record sch (JObj kvs) = Inl (KeyError (StrKey ''id''))"
  by (simp add: entry_record_def map_of_eq_None_iff [THEN iffD2])

lemma entry_record_missing_name:
  assumes "''id'' \<in> fst ` set kvs" "name_key sch \<notin> fst ` set kvs"
  shows "entry_record sch (JObj kvs) = Inl (KeyError (StrKey (name_key sch)))"
proof -
  from assms(1) obtain c where "map_of (rev kvs) ''id'' = Some c"
    by (metis map_of_eq_None_iff not_Some_eq set_rev)
  moreover from assms(2) have "map_of (rev kvs) (name_key sch) = None"
    by (simp add: map_of_eq_None_iff)
  ultimately show ?thesis by (simp add: entry_record_def)
qed

lemma entry_record_row:
  "k \<noteq> ''id'' \<Longrightarrow> entry_record sch (JObj [(''id'', c), (k, n)]) =
     (if k = name_key sch then Inr \<lparr>code = c, name = n\<rparr> else Inl (KeyError (StrKey (name_key sch))))"
  by (cases sch) (auto simp: entry_record_def)

lemma rows_records_flat:
  "map (entry_record FlatArray) (map (\<lambda>(c, n). JObj [(''id'', c), (''name'', n)]) rows)
     = map Inr (map (\<lambda>(c, n). \<lparr>code = c, name = n\<rparr>) rows)"
  by (auto simp: entry_record_row)

lemma rows_records_nested:
  "map (entry_record NestedVariable) (map (\<lambda>(c, n). JObj [(''id'', c), (''value'', n)]) rows)
     = map Inr (map (\<lambda>(c, n). \<lparr>code = c, name = n\<rparr>) rows)"
  by (auto simp: entry_record_row)

text \<open>
  Two envelopes of the wrong shape. The recorded indicators response, a list, read as
  \<open>NestedVariable\<close> stops with a TypeError, which carries no field name. An envelope
  whose second element is an empty object instead of a list of entries, read as
  \<open>FlatArray\<close>, raises nothing and gives no rows.
\<close>

theorem extractRecords_counterexample:
  "extractRecords NestedVariable indicatorsJSON = Inl TypeError
   \<and> extractRecords FlatArray (JArr [JObj [(''total'', JNum 0)], JObj []]) = Inr []"
  by (simp add: indicatorsJSON_def dict_keys_def)

text \<open>
  C2, as the code has it. \<open>FlatArray\<close> reads the keys \<open>id\<close> and \<open>name\<close> of the entries in
  the second element of the envelope, and \<open>NestedVariable\<close> the keys \<open>id\<close> and \<open>value\<close> of
  the entries under \<open>source[0].concept[0].variable\<close>; flat entries keyed \<open>id\<close> and
  \<open>value\<close> stop with KeyError \<open>name\<close>. A list envelope read as \<open>NestedVariable\<close> stops
  with TypeError and a dict envelope read as \<open>FlatArray\<close> with KeyError 1. The first entry
  object that lacks \<open>id\<close>, or has \<open>id\<close> and lacks the name key, stops the loop with the
  KeyError of that key. A result is never partial: on success the rows are as many as the
  items of the container.
\<close>

theorem extractRecords_dispatch_and_errors:
  "extractRecords FlatArray (JArr [p, JArr (map (\<lambda>(c, n). JObj [(''id'', c), (''name'', n)]) rows)])
     = Inr (map (\<lambda>(c, n). \<lparr>code = c, name = n\<rparr>) rows)
   \<and> extractRecords NestedVariable
        (JObj [(''source'', JArr [JObj [(''concept'', JArr [JObj [(''variable'',
           JArr (map (\<lambda>(c, n). JObj [(''id'', c), (''value'', n)]) rows))]])]])])
     = Inr (map (\<lambda>(c, n). \<lparr>code = c, name = n\<rparr>) rows)
   \<and> (rows \<noteq> [] \<longrightarrow>
        extractRecords FlatArray (JArr [p, JArr (map (\<lambda>(c, n). JObj [(''id'', c), (''value'', n)]) rows)])
          = Inl (KeyError (StrKey ''name'')))
   \<and> extractRecords NestedVariable (JArr xs) = Inl TypeError
   \<and> extractRecords FlatArray (JObj kvs) = Inl (KeyError (IntKey 1))
   \<and> (locate sch env = Inr (JArr es) \<and> i < length es
        \<and> (\<forall>j<i. \<exists>c n. subscr (es ! j) (StrKey ''id'') = Inr c
                    \<and> subscr (es ! j) (StrKey (name_key sch)) = Inr n)
        \<and> es ! i = JObj members \<and> ''id'' \<notin> fst ` set members \<longrightarrow>
        extractRecords sch env = Inl (KeyError (StrKey ''id'')))
   \<and> (locate sch env = Inr (JArr es) \<and> i < length es
        \<and> (\<forall>j<i. \<exists>c n. subscr (es ! j) (StrKey ''id'') = Inr c
                    \<and> subscr (es ! j) (StrKey (name_key sch)) = Inr n)
        \<and> es ! i = JObj members \<and> ''id'' \<in> fst ` set members
        \<and> name_key sch \<notin> fst ` set members \<longrightarrow>
        extractRecords sch env = Inl (KeyError (StrKey (name_key sch))))
   \<and> (extractRecords sch env = Inr recs \<longrightarrow>
        (\<exists>d. locate sch env = Inr d \<and> py_len d = Inr (length recs)))"
proof -
  have flat: "extractRecords FlatArray (JArr [p, JArr (map (\<lambda>(c, n). JObj [(''id'', c), (''name'', n)]) rows)])
     = Inr (map (\<lambda>(c, n). \<lparr>code = c, name = n\<rparr>) rows)"
  proof -
    have "locate FlatArray (JArr [p, JArr (map (\<lambda>(c, n). JObj [(''id'', c), (''name'', n)]) rows)])
        = Inr (JArr (map (\<lambda>(c, n). JObj [(''id'', c), (''name'', n)]) rows))"
      by simp
    from extract_array [OF this, THEN iffD2, OF rows_records_flat] show ?thesis .
  qed
  have nested: "extractRecords NestedVariable
        (JObj [(''source'', JArr [JObj [(''concept'', JArr [JObj [(''variable'',
           JArr (map (\<lambda>(c, n). JObj [(''id'', c), (''value'', n)]) rows))]])]])])
     = Inr (map (\<lambda>(c, n). \<lparr>code = c, name = n\<rparr>) rows)"
  proof -
    have "locate NestedVariable
        (JObj [(''source'', JArr [JObj [(''concept'', JArr [JObj [(''variable'',
           JArr (map (\<lambda>(c, n). JObj [(''id'', c), (''value'', n)]) rows))]])]])])
        = Inr (JArr (map (\<lambda>(c, n). JObj [(''id'', c), (''value'', n)]) rows))"
      by simp
    from extract_array [OF this, THEN iffD2, OF rows_records_nested] show ?thesis .
  qed
  have other: "extractRecords FlatArray (JArr [p, JArr (map (\<lambda>(c, n). JObj [(''id'', c), (''value'', n)]) rows)])
          = Inl (KeyError (StrKey ''name''))" if ne: "rows \<noteq> []"
  proof -
    obtain c n rest where r: "rows = (c, n) # rest" using ne by (cases rows) auto
    let ?es = "map (\<lambda>(c, n). JObj [(''id'', c), (''value'', n)]) rows"
    have l: "locate FlatArray (JArr [p, JArr ?es]) = Inr (JArr ?es)" by simp
    have z: "0 < length ?es" using ne by simp
    have e: "entry_record FlatArray (?es ! 0) = Inl (KeyError (StrKey ''name''))"
      by (simp add: r entry_record_row)
    have b: "\<forall>j<0. \<exists>r. entry_record FlatArray (?es ! j) = Inr r" by simp
    from extract_first_error [OF l z b e] show ?thesis .
  qed
  have both: "\<exists>r. entry_record sch (es ! j) = Inr r"
    if "\<exists>c n. subscr (es ! j) (StrKey ''id'') = Inr c \<and> subscr (es ! j) (StrKey (name_key sch)) = Inr n" for j
  proof -
    from that obtain c n where "subscr (es ! j) (StrKey ''id'') = Inr c"
      "subscr (es ! j) (StrKey (name_key sch)) = Inr n" by blast
    then have "entry_record sch (es ! j) = Inr \<lparr>code = c, name = n\<rparr>"
      by (simp add: entry_record_Inr)
    then show ?thesis ..
  qed
  have noid: "extractRecords sch env = Inl (KeyError (StrKey ''id''))"
    if "locate sch env = Inr (JArr es) \<and> i < length es
        \<and> (\<forall>j<i. \<exists>c n. subscr (es ! j) (StrKey ''id'') = Inr c
                    \<and> subscr (es ! j) (StrKey (name_key sch)) = Inr n)
        \<and> es ! i = JObj members \<and> ''id'' \<notin> fst ` set members"
    using that both by (intro extract_first_error [of sch env es i]) (auto simp: entry_record_missing_id)
  have noname: "extractRecords sch env = Inl (KeyError (StrKey (name_key sch)))"
    if "locate sch env = Inr (JArr es) \<and> i < length es
        \<and> (\<forall>j<i. \<exists>c n. subscr (es ! j) (StrKey ''id'') = Inr c
                    \<and> subscr (es ! j) (StrKey (name_key sch)) = Inr n)
        \<and> es ! i = JObj members \<and> ''id'' \<in> fst ` set members
        \<and> name_key sch \<notin> fst ` set members"
    using that both by (intro extract_first_error [of sch env es i]) (auto simp: entry_record_missing_name)
  have whole: "\<exists>d. locate sch env = Inr d \<and> py_len d = Inr (length recs)"
    if "extractRecords sch env = Inr recs"
    using extract_Inr [OF that] by blast
  have t: "extractRecords NestedVariable (JArr xs) = Inl TypeError" by simp
  have k: "extractRecords FlatArray (JObj kvs) = Inl (KeyError (IntKey 1))" by simp
  from flat nested other t k noid noname whole show ?thesis by blast
qed


theorem extractRecords_dispatch_and_errors_witness:
  "extractRecords FlatArray
      (JArr [JObj [], JArr [indicator_DLXF, JObj [(''name'', JStr ''External debt stocks'')]]])
     = Inl (KeyError (StrKey ''id''))
   \<and> extractRecords NestedVariable
      (JObj [(''source'', JArr [JObj [(''concept'', JArr [JObj [(''variable'',
         JArr [location ''AFG'' ''Afghanistan'', JObj [(''id'', JStr ''AGO'')]])]])]])])
     = Inl (KeyError (StrKey ''value''))
   \<and> extractRecords FlatArray (JArr [JObj [], JArr [location ''AFG'' ''Afghanistan'']])
     = Inl (KeyError (StrKey ''name''))
   \<and> (\<exists>d. locate NestedVariable dlocationsJSON = Inr d \<and> py_len d = Inr 10)"
proof -
  let ?envA = "JArr [JObj [], JArr [indicator_DLXF, JObj [(''name'', JStr ''External debt stocks'')]]]"
  let ?esA = "[indicator_DLXF, JObj [(''name'', JStr ''External debt stocks'')]]"
  let ?envB = "JObj [(''source'', JArr [JObj [(''concept'', JArr [JObj [(''variable'',
         JArr [location ''AFG'' ''Afghanistan'', JObj [(''id'', JStr ''AGO'')]])]])]])]"
  let ?esB = "[location ''AFG'' ''Afghanistan'', JObj [(''id'', JStr ''AGO'')]]"
  let ?rows = "[(JStr ''AFG'', JStr ''Afghanistan'')]"
  let ?recs = "[\<lparr>code = JStr ''AFG'', name = JStr ''Afghanistan''\<rparr>,
       \<lparr>code = JStr ''AGO'', name = JStr ''Angola''\<rparr>,
       \<lparr>code = JStr ''ALB'', name = JStr ''Albania''\<rparr>,
       \<lparr>code = JStr ''ARG'', name = JStr ''Argentina''\<rparr>,
       \<lparr>code = JStr ''ARM'', name = JStr ''Armenia''\<rparr>,
       \<lparr>code = JStr ''AZE'', name = JStr ''Azerbaijan''\<rparr>,
       \<lparr>code = JStr ''BDI'', name = JStr ''Burundi''\<rparr>,
       \<lparr>code = JStr ''BEN'', name = JStr ''Benin''\<rparr>,
       \<lparr>code = JStr ''BFA'', name = JStr ''Burkina Faso''\<rparr>,
       \<lparr>code = JStr ''BGD'', name = JStr ''Bangladesh''\<rparr>]"
  note tA = extractRecords_dispatch_and_errors
    [of "JObj []" ?rows _ _ FlatArray ?envA ?esA 1 "[(''name'', JStr ''External debt stocks'')]"]
  note tB = extractRecords_dispatch_and_errors
    [of _ _ _ _ NestedVariable ?envB ?esB 1 "[(''id'', JStr ''AGO'')]"]
  note tC = extractRecords_dispatch_and_errors
    [of _ _ _ _ NestedVariable dlocationsJSON _ _ _ ?recs]
  have hA: "locate FlatArray ?envA = Inr (JArr ?esA) \<and> 1 < length ?esA
        \<and> (\<forall>j<1. \<exists>c n. subscr (?esA ! j) (StrKey ''id'') = Inr c
                    \<and> subscr (?esA ! j) (StrKey (name_key FlatArray)) = Inr n)
        \<and> ?esA ! 1 = JObj [(''name'', JStr ''External debt stocks'')]
        \<and> ''id'' \<notin> fst ` set [(''name'', JStr ''External debt stocks'')]"
    by (simp add: indicator_DLXF_def)
  have hB: "locate NestedVariable ?envB = Inr (JArr ?esB) \<and> 1 < length ?esB
        \<and> (\<forall>j<1. \<exists>c n. subscr (?esB ! j) (StrKey ''id'') = Inr c
                    \<and> subscr (?esB ! j) (StrKey (name_key NestedVariable)) = Inr n)
        \<and> ?esB ! 1 = JObj [(''id'', JStr ''AGO'')]
        \<and> ''id'' \<in> fst ` set [(''id'', JStr ''AGO'')]
        \<and> name_key NestedVariable \<notin> fst ` set [(''id'', JStr ''AGO'')]"
    by (simp add: location_def)
  have a: "extractRecords FlatArray ?envA = Inl (KeyError (StrKey ''id''))"
    using tA [THEN conjunct2, THEN conjunct2, THEN conjunct2, THEN conjunct2, THEN conjunct2, THEN conjunct1, THEN mp, OF hA] .
  have b: "extractRecords NestedVariable ?envB = Inl (KeyError (StrKey (name_key NestedVariable)))"
    using tB [THEN conjunct2, THEN conjunct2, THEN conjunct2, THEN conjunct2, THEN conjunct2, THEN conjunct2, THEN conjunct1, THEN mp, OF hB] .
  have "?rows \<noteq> []" by simp
  from tA [THEN conjunct2, THEN conjunct2, THEN conjunct1, THEN mp, OF this]
  have "extractRecords FlatArray
      (JArr [JObj [], JArr (map (\<lambda>(c, n). JObj [(''id'', c), (''value'', n)]) ?rows)])
        = Inl (KeyError (StrKey ''name''))" .
  then have c: "extractRecords FlatArray (JArr [JObj [], JArr [location ''AFG'' ''Afghanistan'']])
     = Inl (KeyError (StrKey ''name''))"
    by (simp add: location_def)
  have d: "\<exists>d. locate NestedVariable dlocationsJSON = Inr d \<and> py_len d = Inr 10"
  proof -
    from tC [THEN conjunct2, THEN conjunct2, THEN conjunct2, THEN conjunct2, THEN conjunct2, THEN conjunct2, THEN conjunct2, THEN mp, OF dlocations_records]
    have "\<exists>d. locate NestedVariable dlocationsJSON = Inr d \<and> py_len d = Inr (length ?recs)" .
    moreover have "length ?recs = 10" by simp
    ultimately show ?thesis by (simp only:)
  qed
  from a b c d show ?thesis by simp
qed

section \<open>Lookup by code\<close>

lemma scan_filter:
  assumes "\<forall>e\<in>set es. \<exists>v. subscr e (StrKey ''id'') = Inr v"
  shows "scan Inr indicator es = (filter (\<lambda>e. subscr e (StrKey ''id'') = Inr (JStr indicator)) es, None)"
  using assms by (induction es) auto



lemma lookup_array:
  assumes "locate FlatArray env = Inr (JArr es)"
    and "\<forall>e\<in>set es. \<exists>v. subscr e (StrKey ''id'') = Inr v"
  shows "lookup env indicator = (filter (\<lambda>e. subscr e (StrKey ''id'') = Inr (JStr indicator)) es, None)"
  using assms by (simp add: lookup_def scan_envelope_def scan_filter del: locate.simps)

lemma filter_single:
  assumes "\<forall>x\<in>set (pre @ post). \<not> P x" "P e"
  shows "filter P (pre @ [e] @ post) = [e]"
  using assms by (simp add: filter_empty_conv [THEN iffD2])

text \<open>
  Two entries with the same id: the scan yields both, and the cell prints a line for each,
  not only for the first.
\<close>

theorem lookup_counterexample:
  "lookup (JArr [JObj [(''total'', JNum 2)],
        JArr [JObj [(''id'', JStr ''AFG''), (''name'', JStr ''Afghanistan'')],
              JObj [(''id'', JStr ''AFG''), (''name'', JStr ''Afghanistan (duplicate)'')]]]) ''AFG''
     = ([JObj [(''id'', JStr ''AFG''), (''name'', JStr ''Afghanistan'')],
         JObj [(''id'', JStr ''AFG''), (''name'', JStr ''Afghanistan (duplicate)'')]], None)
   \<and> findMetadata (JArr [JObj [(''total'', JNum 2)],
        JArr [JObj [(''id'', JStr ''AFG''), (''name'', JStr ''Afghanistan'')],
              JObj [(''id'', JStr ''AFG''), (''name'', JStr ''Afghanistan (duplicate)'')]]]) ''AFG'' ''name''
     = ([JStr ''Afghanistan'', JStr ''Afghanistan (duplicate)''], None)"
  by (simp add: lookup_def findMetadata_def scan_envelope_def)

text \<open>
  C3, as the code has it. Over entries that all have an \<open>id\<close>, the scan yields exactly the
  entries whose \<open>id\<close> is the string asked for, character for character, in the order of
  the response: nothing, and no exception, when none matches; the one entry when exactly
  one matches; and, when several match, all of them, the first match first.
\<close>

theorem lookup_returns_all_matches:
  "(locate FlatArray env = Inr (JArr es)
      \<and> (\<forall>e\<in>set es. \<exists>v. subscr e (StrKey ''id'') = Inr v) \<longrightarrow>
      lookup env indicator =
        (filter (\<lambda>e. subscr e (StrKey ''id'') = Inr (JStr indicator)) es, None))
   \<and> (locate FlatArray env = Inr (JArr es)
      \<and> (\<forall>e\<in>set es. \<exists>v. subscr e (StrKey ''id'') = Inr v \<and> v \<noteq> JStr indicator) \<longrightarrow>
      lookup env indicator = ([], None))
   \<and> (locate FlatArray env = Inr (JArr (pre @ [e] @ post))
      \<and> (\<forall>x\<in>set (pre @ post). \<exists>v. subscr x (StrKey ''id'') = Inr v \<and> v \<noteq> JStr indicator)
      \<and> subscr e (StrKey ''id'') = Inr (JStr indicator) \<longrightarrow>
      lookup env indicator = ([e], None))
   \<and> (locate FlatArray env = Inr (JArr (pre @ [e] @ post))
      \<and> (\<forall>x\<in>set pre. \<exists>v. subscr x (StrKey ''id'') = Inr v \<and> v \<noteq> JStr indicator)
      \<and> (\<forall>x\<in>set post. \<exists>v. subscr x (StrKey ''id'') = Inr v)
      \<and> subscr e (StrKey ''id'') = Inr (JStr indicator) \<longrightarrow>
      lookup env indicator =
        (e # filter (\<lambda>x. subscr x (StrKey ''id'') = Inr (JStr indicator)) post, None))"
proof (intro conjI impI)
  assume a: "locate FlatArray env = Inr (JArr es)
      \<and> (\<forall>e\<in>set es. \<exists>v. subscr e (StrKey ''id'') = Inr v)"
  then show "lookup env indicator =
        (filter (\<lambda>e. subscr e (StrKey ''id'') = Inr (JStr indicator)) es, None)"
    using lookup_array [of env es indicator] by blast
next
  assume a: "locate FlatArray env = Inr (JArr es)
      \<and> (\<forall>e\<in>set es. \<exists>v. subscr e (StrKey ''id'') = Inr v \<and> v \<noteq> JStr indicator)"
  then have "\<forall>x\<in>set es. \<not> subscr x (StrKey ''id'') = Inr (JStr indicator)"
    by fastforce
  then have "filter (\<lambda>e. subscr e (StrKey ''id'') = Inr (JStr indicator)) es = []"
    by (simp add: filter_empty_conv)
  moreover from a have "\<forall>e\<in>set es. \<exists>v. subscr e (StrKey ''id'') = Inr v" by blast
  ultimately show "lookup env indicator = ([], None)"
    using a lookup_array [of env es indicator] by simp
next
  assume a: "locate FlatArray env = Inr (JArr (pre @ [e] @ post))
      \<and> (\<forall>x\<in>set (pre @ post). \<exists>v. subscr x (StrKey ''id'') = Inr v \<and> v \<noteq> JStr indicator)
      \<and> subscr e (StrKey ''id'') = Inr (JStr indicator)"
  then have "\<forall>x\<in>set (pre @ post). \<not> subscr x (StrKey ''id'') = Inr (JStr indicator)"
    by fastforce
  with a have "filter (\<lambda>e. subscr e (StrKey ''id'') = Inr (JStr indicator)) (pre @ [e] @ post) = [e]"
    by (intro filter_single) blast+
  moreover from a have "\<forall>x\<in>set (pre @ [e] @ post). \<exists>v. subscr x (StrKey ''id'') = Inr v" by auto
  ultimately show "lookup env indicator = ([e], None)"
    using a lookup_array [of env "pre @ [e] @ post" indicator] by simp
next
  assume a: "locate FlatArray env = Inr (JArr (pre @ [e] @ post))
      \<and> (\<forall>x\<in>set pre. \<exists>v. subscr x (StrKey ''id'') = Inr v \<and> v \<noteq> JStr indicator)
      \<and> (\<forall>x\<in>set post. \<exists>v. subscr x (StrKey ''id'') = Inr v)
      \<and> subscr e (StrKey ''id'') = Inr (JStr indicator)"
  then have "\<forall>x\<in>set pre. \<not> subscr x (StrKey ''id'') = Inr (JStr indicator)"
    by fastforce
  then have "filter (\<lambda>e. subscr e (StrKey ''id'') = Inr (JStr indicator)) pre = []"
    by (simp add: filter_empty_conv)
  with a have "filter (\<lambda>e. subscr e (StrKey ''id'') = Inr (JStr indicator)) (pre @ [e] @ post)
      = e # filter (\<lambda>x. subscr x (StrKey ''id'') = Inr (JStr indicator)) post"
    by simp
  moreover from a have "\<forall>x\<in>set (pre @ [e] @ post). \<exists>v. subscr x (StrKey ''id'') = Inr v" by auto
  ultimately show "lookup env indicator =
        (e # filter (\<lambda>x. subscr x (StrKey ''id'') = Inr (JStr indicator)) post, None)"
    using a lookup_array [of env "pre @ [e] @ post" indicator] by simp
qed


theorem lookup_returns_all_matches_witness:
  "lookup indicatorsJSON ''dt.dod.dlxf.cd'' = ([], None)
   \<and> lookup indicatorsJSON ''DT.DOD.DLXF.CD'' = ([indicator_DLXF], None)
   \<and> lookup (JArr [JObj [(''total'', JNum 2)],
        JArr [JObj [(''id'', JStr ''AFG''), (''name'', JStr ''Afghanistan'')],
              JObj [(''id'', JStr ''AFG''), (''name'', JStr ''Afghanistan (duplicate)'')]]]) ''AFG''
     = ([JObj [(''id'', JStr ''AFG''), (''name'', JStr ''Afghanistan'')],
         JObj [(''id'', JStr ''AFG''), (''name'', JStr ''Afghanistan (duplicate)'')]], None)"
proof -
  let ?e1 = "JObj [(''id'', JStr ''AFG''), (''name'', JStr ''Afghanistan'')]"
  let ?e2 = "JObj [(''id'', JStr ''AFG''), (''name'', JStr ''Afghanistan (duplicate)'')]"
  let ?dup = "JArr [JObj [(''total'', JNum 2)], JArr [?e1, ?e2]]"
  note t1 = lookup_returns_all_matches [of indicatorsJSON "[indicator_DLXF]" "''dt.dod.dlxf.cd''"]
  note t2 = lookup_returns_all_matches [of indicatorsJSON _ "''DT.DOD.DLXF.CD''" "[]" indicator_DLXF "[]"]
  note t3 = lookup_returns_all_matches [of ?dup "[?e1, ?e2]" "''AFG''" "[]" ?e1 "[?e2]"]
  have h1: "locate FlatArray indicatorsJSON = Inr (JArr [indicator_DLXF])
      \<and> (\<forall>e\<in>set [indicator_DLXF]. \<exists>v. subscr e (StrKey ''id'') = Inr v \<and> v \<noteq> JStr ''dt.dod.dlxf.cd'')"
    by (simp add: indicatorsJSON_def indicator_DLXF_def)
  have h2: "locate FlatArray indicatorsJSON = Inr (JArr ([] @ [indicator_DLXF] @ []))
      \<and> (\<forall>x\<in>set ([] @ []). \<exists>v. subscr x (StrKey ''id'') = Inr v \<and> v \<noteq> JStr ''DT.DOD.DLXF.CD'')
      \<and> subscr indicator_DLXF (StrKey ''id'') = Inr (JStr ''DT.DOD.DLXF.CD'')"
    by (simp add: indicatorsJSON_def indicator_DLXF_def)
  have h3: "locate FlatArray ?dup = Inr (JArr [?e1, ?e2])
      \<and> (\<forall>e\<in>set [?e1, ?e2]. \<exists>v. subscr e (StrKey ''id'') = Inr v)"
    by simp
  have h4: "locate FlatArray ?dup = Inr (JArr ([] @ [?e1] @ [?e2]))
      \<and> (\<forall>x\<in>set []. \<exists>v. subscr x (StrKey ''id'') = Inr v \<and> v \<noteq> JStr ''AFG'')
      \<and> (\<forall>x\<in>set [?e2]. \<exists>v. subscr x (StrKey ''id'') = Inr v)
      \<and> subscr ?e1 (StrKey ''id'') = Inr (JStr ''AFG'')"
    by simp
  have a: "lookup indicatorsJSON ''dt.dod.dlxf.cd'' = ([], None)"
    using t1 [THEN conjunct2, THEN conjunct1, THEN mp, OF h1] .
  have b: "lookup indicatorsJSON ''DT.DOD.DLXF.CD'' = ([indicator_DLXF], None)"
    using t2 [THEN conjunct2, THEN conjunct2, THEN conjunct1, THEN mp, OF h2] .
  have "lookup ?dup ''AFG'' =
      (filter (\<lambda>e. subscr e (StrKey ''id'') = Inr (JStr ''AFG'')) [?e1, ?e2], None)"
    using t3 [THEN conjunct1, THEN mp, OF h3] .
  then have c: "lookup ?dup ''AFG'' = ([?e1, ?e2], None)" by simp
  have "lookup ?dup ''AFG'' =
      (?e1 # filter (\<lambda>e. subscr e (StrKey ''id'') = Inr (JStr ''AFG'')) [?e2], None)"
    using t3 [THEN conjunct2, THEN conjunct2, THEN conjunct2, THEN mp, OF h4] .
  then have d: "lookup ?dup ''AFG'' = ([?e1, ?e2], None)" by simp
  from a b d show ?thesis by (intro conjI)
qed





section \<open>Fetching one page\<close>

lemma fetchAll_response:
  "get req w = (Inr env, w') \<Longrightarrow> fetchAll get sch req w = (extractRecords sch env, w')"
  by (simp add: fetchAll_def)

lemma fetchAll_world: "snd (fetchAll get sch req w) = snd (get req w)"
  by (simp add: fetchAll_def split: prod.splits sum.splits)

lemma locate_wb_response:
  "locate (shape fx) (wb_response fx req) = Inr (JArr (take (page_size req) (entries fx)))"
  by (cases "shape fx") (simp_all add: wb_response_def)

lemma total_wb_response:
  "shape fx = FlatArray \<Longrightarrow>
     path (wb_response fx req) [IntKey 0, StrKey ''total''] = Inr (JNum (of_nat (length (entries fx))))"
  by (simp add: wb_response_def paging_def)

lemma both_keys_record:
  assumes "\<forall>e\<in>set es. \<exists>c n. subscr e (StrKey ''id'') = Inr c \<and> subscr e (StrKey (name_key sch)) = Inr n"
  shows "\<exists>recs. map (entry_record sch) es = map Inr recs"
  using assms
proof (induction es)
  case Nil
  show ?case by simp
next
  case (Cons e es)
  then obtain recs where r: "map (entry_record sch) es = map Inr recs" by auto
  from Cons.prems obtain c n where "subscr e (StrKey ''id'') = Inr c"
    "subscr e (StrKey (name_key sch)) = Inr n" by auto
  then have "entry_record sch e = Inr \<lparr>code = c, name = n\<rparr>" by (simp add: entry_record_Inr)
  with r have "map (entry_record sch) (e # es) = map Inr (\<lparr>code = c, name = n\<rparr> # recs)" by simp
  then show ?case by blast
qed

lemma records_ids:
  assumes "map (entry_record sch) es = map Inr recs"
  shows "map (\<lambda>e. subscr e (StrKey ''id'')) es = map (\<lambda>r. Inr (code r)) recs"
proof (rule nth_equalityI)
  show l: "length (map (\<lambda>e. subscr e (StrKey ''id'')) es) = length (map (\<lambda>r. Inr (code r)) recs)"
    using assms by (metis length_map)
  fix i assume "i < length (map (\<lambda>e. subscr e (StrKey ''id'')) es)"
  then have i: "i < length es" "i < length recs" using l by simp_all
  then have "entry_record sch (es ! i) = Inr (recs ! i)"
    using assms by (metis nth_map)
  then show "map (\<lambda>e. subscr e (StrKey ''id'')) es ! i = map (\<lambda>r. Inr (code r)) recs ! i"
    using i by (simp add: entry_record_Inr)
qed

lemma fetchTotalCount_wb:
  "shape fx = FlatArray \<Longrightarrow>
     fetchTotalCount (wb_get fx) req seen = (Inr (JNum (of_nat (length (entries fx)))), seen @ [req])"
  by (simp add: fetchTotalCount_def wb_get_def total_wb_response del: path.simps)

lemma catalog569_entries:
  "\<forall>e\<in>set (entries catalog569). \<exists>c n. subscr e (StrKey ''id'') = Inr c
        \<and> subscr e (StrKey (name_key (shape catalog569))) = Inr n"
  by (auto simp: catalog569_def numbered_indicator_def)

lemma catalog569_total: "length (entries catalog569) = 569" "shape catalog569 = FlatArray"
  by (simp_all add: catalog569_def)

lemma fetchAll_wb_first_page:
  assumes "page_size req < length (entries fx)"
    "\<forall>e\<in>set (take (page_size req) (entries fx)). \<exists>c n. subscr e (StrKey ''id'') = Inr c
        \<and> subscr e (StrKey (name_key (shape fx))) = Inr n"
  shows "\<exists>recs. fetchAll (wb_get fx) (shape fx) req seen = (Inr recs, seen @ [req])
           \<and> length recs = page_size req
           \<and> map (\<lambda>e. subscr e (StrKey ''id'')) (take (page_size req) (entries fx))
               = map (\<lambda>r. Inr (code r)) recs"
proof -
  from both_keys_record [OF assms(2)] obtain recs
    where r: "map (entry_record (shape fx)) (take (page_size req) (entries fx)) = map Inr recs" ..
  have "extractRecords (shape fx) (wb_response fx req) = Inr recs"
    using extract_array [OF locate_wb_response [of fx req]] r by simp
  then have "fetchAll (wb_get fx) (shape fx) req seen = (Inr recs, seen @ [req])"
    by (simp add: fetchAll_def wb_get_def)
  moreover have "length recs = page_size req"
  proof -
    have "length (map Inr recs :: (py_error + CatalogRecord) list)
        = length (take (page_size req) (entries fx))"
      using r by (metis length_map)
    then show ?thesis using assms(1) by simp
  qed
  ultimately show ?thesis using records_ids [OF r] by blast
qed

lemma fetchTotalCount_dict:
  "get req w = (Inr (JObj members), w') \<Longrightarrow>
     fetchTotalCount get req w = (Inl (KeyError (IntKey 0)), w')"
  by (simp add: fetchTotalCount_def)

lemma fetchTotalCount_list:
  "get req w = (Inr (JArr (JObj members # rest)), w') \<Longrightarrow>
     fetchTotalCount get req w = (subscr (JObj members) (StrKey ''total''), w')"
  by (simp add: fetchTotalCount_def split: sum.splits)

lemma fetchTotalCount_world: "snd (fetchTotalCount get req w) = snd (get req w)"
  by (simp add: fetchTotalCount_def split: prod.splits sum.splits)

lemma fetchTotalCount_wb_nested:
  "shape fx = NestedVariable \<Longrightarrow>
     fetchTotalCount (wb_get fx) req seen = (Inl (KeyError (IntKey 0)), seen @ [req])"
  by (simp add: fetchTotalCount_def wb_get_def wb_response_def)

lemma catalog569_page:
  "\<forall>e\<in>set (take n (entries catalog569)). \<exists>c k. subscr e (StrKey ''id'') = Inr c
        \<and> subscr e (StrKey (name_key (shape catalog569))) = Inr k"
  using catalog569_entries by (meson in_set_takeD)

text \<open>
  The ten debtor locations served five to a page: the rows are the first five, the
  response carries \<open>total = 10\<close>, and reading the total as cell 4 does stops with
  KeyError 0.
\<close>

theorem fetchAll_truncates_nested_total_counterexample:
  "fetchAll (wb_get debtor_catalog) NestedVariable (dlocations_request\<lparr>per_page := Some 5\<rparr>) []
     = (Inr [\<lparr>code = JStr ''AFG'', name = JStr ''Afghanistan''\<rparr>,
             \<lparr>code = JStr ''AGO'', name = JStr ''Angola''\<rparr>,
             \<lparr>code = JStr ''ALB'', name = JStr ''Albania''\<rparr>,
             \<lparr>code = JStr ''ARG'', name = JStr ''Argentina''\<rparr>,
             \<lparr>code = JStr ''ARM'', name = JStr ''Armenia''\<rparr>],
        [dlocations_request\<lparr>per_page := Some 5\<rparr>])
   \<and> fetchTotalCount (wb_get debtor_catalog) (dlocations_request\<lparr>per_page := Some 5\<rparr>) []
     = (Inl (KeyError (IntKey 0)), [dlocations_request\<lparr>per_page := Some 5\<rparr>])
   \<and> subscr (wb_response debtor_catalog (dlocations_request\<lparr>per_page := Some 5\<rparr>)) (StrKey ''total'')
     = Inr (JNum 10)"
  by (simp add: fetchAll_def fetchTotalCount_def wb_get_def wb_response_def debtor_catalog_def
      dlocations_def location_def page_size_def paging_def entry_record_def upt_rec)

text \<open>
  C1, as the code has it. Against a paging server whose catalog has more entries than the
  page size of the request (its \<open>per_page\<close>, or 50 without one), the entries of the page
  each with an \<open>id\<close> and a name, \<open>fetchAll\<close> sends exactly one request and returns, as an
  ordinary result, exactly as many rows as the page size, those of the first entries in
  order; nothing in the result tells that the catalog is longer. \<open>fetchTotalCount\<close> sends
  one request too and reads \<open>[0]["total"]\<close> of the response: on a flat response that is
  the \<open>total\<close> of the paging metadata, the full length of the catalog; a nested response
  is a dict, and on it the read stops with KeyError 0. With 569 indicators and
  \<open>per_page = 50\<close>, the rows are 50 and the total is 569.
\<close>

theorem fetchAll_returns_one_page:
  "(page_size req < length (entries fx)
      \<and> (\<forall>e\<in>set (take (page_size req) (entries fx)). \<exists>c n. subscr e (StrKey ''id'') = Inr c
            \<and> subscr e (StrKey (name_key (shape fx))) = Inr n) \<longrightarrow>
      (\<exists>recs. fetchAll (wb_get fx) (shape fx) req seen = (Inr recs, seen @ [req])
           \<and> length recs = page_size req
           \<and> map (\<lambda>e. subscr e (StrKey ''id'')) (take (page_size req) (entries fx))
               = map (\<lambda>r. Inr (code r)) recs))
   \<and> (shape fx = FlatArray \<longrightarrow>
        fetchTotalCount (wb_get fx) req seen
          = (Inr (JNum (of_nat (length (entries fx)))), seen @ [req]))
   \<and> (shape fx = NestedVariable \<longrightarrow>
        fetchTotalCount (wb_get fx) req seen = (Inl (KeyError (IntKey 0)), seen @ [req]))
   \<and> (get req w = (Inr (JArr (JObj members # rest)), w') \<longrightarrow>
        fetchTotalCount get req w = (subscr (JObj members) (StrKey ''total''), w'))
   \<and> (get req w = (Inr (JObj members), w') \<longrightarrow>
        fetchTotalCount get req w = (Inl (KeyError (IntKey 0)), w'))
   \<and> snd (fetchAll get sch req w) = snd (get req w)
   \<and> snd (fetchTotalCount get req w) = snd (get req w)
   \<and> (\<exists>recs. fetchAll (wb_get catalog569) FlatArray (indicators_request\<lparr>per_page := Some 50\<rparr>) []
          = (Inr recs, [indicators_request\<lparr>per_page := Some 50\<rparr>]) \<and> length recs = 50)
   \<and> fetchTotalCount (wb_get catalog569) indicators_default_request []
        = (Inr (JNum 569), [indicators_default_request])"
proof -
  have c1: "page_size req < length (entries fx)
      \<and> (\<forall>e\<in>set (take (page_size req) (entries fx)). \<exists>c n. subscr e (StrKey ''id'') = Inr c
            \<and> subscr e (StrKey (name_key (shape fx))) = Inr n) \<longrightarrow>
      (\<exists>recs. fetchAll (wb_get fx) (shape fx) req seen = (Inr recs, seen @ [req])
           \<and> length recs = page_size req
           \<and> map (\<lambda>e. subscr e (StrKey ''id'')) (take (page_size req) (entries fx))
               = map (\<lambda>r. Inr (code r)) recs)"
    using fetchAll_wb_first_page [of req fx seen] by blast
  have c2: "shape fx = FlatArray \<longrightarrow>
        fetchTotalCount (wb_get fx) req seen
          = (Inr (JNum (of_nat (length (entries fx)))), seen @ [req])"
    using fetchTotalCount_wb [of fx req seen] by blast
  have c3: "shape fx = NestedVariable \<longrightarrow>
        fetchTotalCount (wb_get fx) req seen = (Inl (KeyError (IntKey 0)), seen @ [req])"
    using fetchTotalCount_wb_nested [of fx req seen] by blast
  have c4: "get req w = (Inr (JArr (JObj members # rest)), w') \<longrightarrow>
        fetchTotalCount get req w = (subscr (JObj members) (StrKey ''total''), w')"
    using fetchTotalCount_list [of get req w members rest w'] by blast
  have c5: "get req w = (Inr (JObj members), w') \<longrightarrow>
        fetchTotalCount get req w = (Inl (KeyError (IntKey 0)), w')"
    using fetchTotalCount_dict [of get req w members w'] by blast
  have c6: "snd (fetchAll get sch req w) = snd (get req w)"
    by (rule fetchAll_world)
  have c7: "snd (fetchTotalCount get req w) = snd (get req w)"
    by (rule fetchTotalCount_world)
  let ?req = "indicators_request\<lparr>per_page := Some 50\<rparr>"
  have ps: "page_size ?req = 50" by (simp add: page_size_def)
  have "page_size ?req < length (entries catalog569)" by (simp add: ps catalog569_total)
  from fetchAll_wb_first_page [OF this catalog569_page, of "[]"] obtain recs where
    "fetchAll (wb_get catalog569) (shape catalog569) ?req [] = (Inr recs, [] @ [?req])"
    "length recs = page_size ?req"
    by blast
  then have c8: "\<exists>recs. fetchAll (wb_get catalog569) FlatArray ?req [] = (Inr recs, [?req])
      \<and> length recs = 50"
    by (simp add: catalog569_total ps)
  have c9: "fetchTotalCount (wb_get catalog569) indicators_default_request []
        = (Inr (JNum 569), [indicators_default_request])"
    using fetchTotalCount_wb [OF catalog569_total(2), of indicators_default_request "[]"]
    by (simp add: catalog569_total)
  from c1 c2 c3 c4 c5 c6 c7 c8 c9 show ?thesis by (intro conjI)
qed

theorem fetchAll_returns_one_page_witness:
  "page_size (indicators_request\<lparr>per_page := Some 50\<rparr>) < length (entries catalog569)
   \<and> shape catalog569 = FlatArray
   \<and> (\<exists>recs. fetchAll (wb_get catalog569) FlatArray (indicators_request\<lparr>per_page := Some 50\<rparr>) []
          = (Inr recs, [indicators_request\<lparr>per_page := Some 50\<rparr>]) \<and> length recs = 50)
   \<and> fetchTotalCount (wb_get catalog569) indicators_default_request []
        = (Inr (JNum 569), [indicators_default_request])
   \<and> fetchTotalCount (wb_get catalog569) indicators_default_request []
        = (subscr (JObj (paging catalog569 indicators_default_request)) (StrKey ''total''),
           [indicators_default_request])
   \<and> shape debtor_catalog = NestedVariable
   \<and> fetchTotalCount (wb_get debtor_catalog) dlocations_request []
        = (Inl (KeyError (IntKey 0)), [dlocations_request])"
proof -
  let ?req = "indicators_request\<lparr>per_page := Some 50\<rparr>"
  note t1 = fetchAll_returns_one_page [of ?req catalog569 "[]"]
  note t2 = fetchAll_returns_one_page
    [of indicators_default_request catalog569 "[]" "wb_get catalog569" "[]"
        "paging catalog569 indicators_default_request"
        "[JArr (take (page_size indicators_default_request) (entries catalog569))]"
        "[indicators_default_request]"]
  note t3 = fetchAll_returns_one_page
    [of dlocations_request debtor_catalog "[]" "wb_get debtor_catalog" "[]"
        "paging debtor_catalog dlocations_request @
          [(''source'', JArr [JObj [(''concept'', JArr [JObj [(''variable'',
             JArr (take (page_size dlocations_request) (entries debtor_catalog)))]])]])]"
        _ "[dlocations_request]"]
  have ps: "page_size ?req = 50" by (simp add: page_size_def)
  have s1: "shape catalog569 = FlatArray" by (rule catalog569_total)
  have s2: "shape debtor_catalog = NestedVariable" by (simp add: debtor_catalog_def)
  have h: "page_size ?req < length (entries catalog569)
      \<and> (\<forall>e\<in>set (take (page_size ?req) (entries catalog569)). \<exists>c n. subscr e (StrKey ''id'') = Inr c
            \<and> subscr e (StrKey (name_key (shape catalog569))) = Inr n)"
    using catalog569_page by (simp add: catalog569_total ps)
  from t1 [THEN conjunct1, THEN mp, OF h] obtain recs where
    "fetchAll (wb_get catalog569) (shape catalog569) ?req [] = (Inr recs, [] @ [?req])"
    "length recs = page_size ?req"
    by blast
  then have a: "\<exists>recs. fetchAll (wb_get catalog569) FlatArray ?req [] = (Inr recs, [?req])
      \<and> length recs = 50"
    by (simp add: catalog569_total ps)
  from t2 [THEN conjunct2, THEN conjunct1, THEN mp, OF s1]
  have b: "fetchTotalCount (wb_get catalog569) indicators_default_request []
        = (Inr (JNum 569), [indicators_default_request])"
    by (simp add: catalog569_total)
  have g1: "wb_get catalog569 indicators_default_request []
      = (Inr (JArr (JObj (paging catalog569 indicators_default_request)
           # [JArr (take (page_size indicators_default_request) (entries catalog569))])),
         [indicators_default_request])"
    by (simp add: wb_get_def wb_response_def catalog569_total)
  from t2 [THEN conjunct2, THEN conjunct2, THEN conjunct2, THEN conjunct1, THEN mp, OF g1]
  have c: "fetchTotalCount (wb_get catalog569) indicators_default_request []
        = (subscr (JObj (paging catalog569 indicators_default_request)) (StrKey ''total''),
           [indicators_default_request])" .
  from t3 [THEN conjunct2, THEN conjunct2, THEN conjunct1, THEN mp, OF s2]
  have d: "fetchTotalCount (wb_get debtor_catalog) dlocations_request []
        = (Inl (KeyError (IntKey 0)), [] @ [dlocations_request])" .
  have g2: "wb_get debtor_catalog dlocations_request []
      = (Inr (JObj (paging debtor_catalog dlocations_request @
          [(''source'', JArr [JObj [(''concept'', JArr [JObj [(''variable'',
             JArr (take (page_size dlocations_request) (entries debtor_catalog)))]])]])])),
         [dlocations_request])"
    by (simp add: wb_get_def wb_response_def s2)
  from t3 [THEN conjunct2, THEN conjunct2, THEN conjunct2, THEN conjunct2, THEN conjunct1, THEN mp, OF g2]
  have d': "fetchTotalCount (wb_get debtor_catalog) dlocations_request []
        = (Inl (KeyError (IntKey 0)), [dlocations_request])" .
  have p: "page_size ?req < length (entries catalog569)" by (simp add: ps catalog569_total)
  from p s1 a b c s2 d' show ?thesis by (intro conjI)
qed

lemma nonempty_rows:
  assumes m: "map (entry_record sch) es = map Inr recs"
    and ne: "\<forall>e\<in>set es. \<exists>c n. c \<noteq> [] \<and> n \<noteq> []
        \<and> subscr e (StrKey ''id'') = Inr (JStr c) \<and> subscr e (StrKey (name_key sch)) = Inr (JStr n)"
  shows "\<forall>r\<in>set recs. \<exists>c n. c \<noteq> [] \<and> n \<noteq> [] \<and> code r = JStr c \<and> name r = JStr n"
proof
  fix r assume "r \<in> set recs"
  then obtain i where i: "i < length recs" "recs ! i = r" by (auto simp: in_set_conv_nth)
  have l: "length es = length recs" using m by (metis length_map)
  with i m have e: "entry_record sch (es ! i) = Inr r" by (metis nth_map)
  from i l have "es ! i \<in> set es" by simp
  with ne obtain c n where "c \<noteq> []" "n \<noteq> []" "subscr (es ! i) (StrKey ''id'') = Inr (JStr c)"
    "subscr (es ! i) (StrKey (name_key sch)) = Inr (JStr n)" by blast
  with e have "c \<noteq> [] \<and> n \<noteq> [] \<and> code r = JStr c \<and> name r = JStr n"
    by (simp add: entry_record_Inr)
  then show "\<exists>c n. c \<noteq> [] \<and> n \<noteq> [] \<and> code r = JStr c \<and> name r = JStr n"
    by blast
qed

text \<open>
  A valid request answered with an entry whose \<open>id\<close> and \<open>name\<close> are empty strings: the
  row comes out with an empty code and an empty name.
\<close>

theorem fetchAll_empty_code_counterexample:
  "fetchAll (wb_get \<lparr>shape = FlatArray, entries = [JObj [(''id'', JStr []), (''name'', JStr [])]]\<rparr>)
      FlatArray indicators_request []
     = (Inr [\<lparr>code = JStr [], name = JStr []\<rparr>], [indicators_request])"
  by (simp add: fetchAll_def wb_get_def wb_response_def entry_record_def page_size_def
      indicators_request_def)

lemma fetchAll_nonempty_rows:
  assumes g: "get req w = (Inr env, w')" and l: "locate sch env = Inr (JArr es)"
    and ne: "\<forall>e\<in>set es. \<exists>c n. c \<noteq> [] \<and> n \<noteq> []
           \<and> subscr e (StrKey ''id'') = Inr (JStr c)
           \<and> subscr e (StrKey (name_key sch)) = Inr (JStr n)"
  shows "\<exists>recs. fetchAll get sch req w = (Inr recs, w') \<and> length recs = length es
       \<and> (\<forall>r\<in>set recs. \<exists>c n. c \<noteq> [] \<and> n \<noteq> [] \<and> code r = JStr c \<and> name r = JStr n)"
proof -
  from ne have "\<forall>e\<in>set es. \<exists>c n. subscr e (StrKey ''id'') = Inr c
      \<and> subscr e (StrKey (name_key sch)) = Inr n" by blast
  from both_keys_record [OF this] obtain recs
    where r: "map (entry_record sch) es = map Inr recs" ..
  from l r have "extractRecords sch env = Inr recs"
    using extract_array [of sch env es recs] by blast
  with g have "fetchAll get sch req w = (Inr recs, w')"
    by (simp add: fetchAll_response del: extractRecords.simps)
  moreover have "length recs = length es" using r by (metis length_map)
  ultimately show ?thesis
    using nonempty_rows [OF r ne] by blast
qed

text \<open>
  C5, as the code has it. When the response to the request holds a list of entries whose
  \<open>id\<close> and name are non-empty strings, \<open>fetchAll\<close> returns one row per entry and every
  row has a non-empty code and a non-empty name; so it is for a list response with the
  entries as its second element and for a dict response with the entries under
  \<open>source[0].concept[0].variable\<close>. The rows are as good as the entries: nothing in
  \<open>fetchAll\<close> checks them.
\<close>

theorem fetchAll_nonempty_when_entries_are:
  "(get req w = (Inr env, w') \<and> locate sch env = Inr (JArr es)
     \<and> (\<forall>e\<in>set es. \<exists>c n. c \<noteq> [] \<and> n \<noteq> []
           \<and> subscr e (StrKey ''id'') = Inr (JStr c)
           \<and> subscr e (StrKey (name_key sch)) = Inr (JStr n)) \<longrightarrow>
   (\<exists>recs. fetchAll get sch req w = (Inr recs, w') \<and> length recs = length es
       \<and> (\<forall>r\<in>set recs. \<exists>c n. c \<noteq> [] \<and> n \<noteq> [] \<and> code r = JStr c \<and> name r = JStr n)))
   \<and> (get req w = (Inr (JArr (p # JArr es # others)), w')
     \<and> (\<forall>e\<in>set es. \<exists>c n. c \<noteq> [] \<and> n \<noteq> []
           \<and> subscr e (StrKey ''id'') = Inr (JStr c)
           \<and> subscr e (StrKey ''name'') = Inr (JStr n)) \<longrightarrow>
   (\<exists>recs. fetchAll get FlatArray req w = (Inr recs, w') \<and> length recs = length es
       \<and> (\<forall>r\<in>set recs. \<exists>c n. c \<noteq> [] \<and> n \<noteq> [] \<and> code r = JStr c \<and> name r = JStr n)))
   \<and> (get req w = (Inr (JObj (meta @ [(''source'', JArr (JObj (smeta @ [(''concept'',
            JArr (JObj (cmeta @ [(''variable'', JArr es)]) # cs))]) # ss))])), w')
     \<and> (\<forall>e\<in>set es. \<exists>c n. c \<noteq> [] \<and> n \<noteq> []
           \<and> subscr e (StrKey ''id'') = Inr (JStr c)
           \<and> subscr e (StrKey ''value'') = Inr (JStr n)) \<longrightarrow>
   (\<exists>recs. fetchAll get NestedVariable req w = (Inr recs, w') \<and> length recs = length es
       \<and> (\<forall>r\<in>set recs. \<exists>c n. c \<noteq> [] \<and> n \<noteq> [] \<and> code r = JStr c \<and> name r = JStr n)))"
proof (intro conjI impI)
  assume "get req w = (Inr env, w') \<and> locate sch env = Inr (JArr es)
     \<and> (\<forall>e\<in>set es. \<exists>c n. c \<noteq> [] \<and> n \<noteq> []
           \<and> subscr e (StrKey ''id'') = Inr (JStr c)
           \<and> subscr e (StrKey (name_key sch)) = Inr (JStr n))"
  then show "\<exists>recs. fetchAll get sch req w = (Inr recs, w') \<and> length recs = length es
       \<and> (\<forall>r\<in>set recs. \<exists>c n. c \<noteq> [] \<and> n \<noteq> [] \<and> code r = JStr c \<and> name r = JStr n)"
    using fetchAll_nonempty_rows [of get req w env w' sch es] by blast
next
  assume a: "get req w = (Inr (JArr (p # JArr es # others)), w')
     \<and> (\<forall>e\<in>set es. \<exists>c n. c \<noteq> [] \<and> n \<noteq> []
           \<and> subscr e (StrKey ''id'') = Inr (JStr c)
           \<and> subscr e (StrKey ''name'') = Inr (JStr n))"
  then have "\<forall>e\<in>set es. \<exists>c n. c \<noteq> [] \<and> n \<noteq> []
           \<and> subscr e (StrKey ''id'') = Inr (JStr c)
           \<and> subscr e (StrKey (name_key FlatArray)) = Inr (JStr n)" by simp
  with a show "\<exists>recs. fetchAll get FlatArray req w = (Inr recs, w') \<and> length recs = length es
       \<and> (\<forall>r\<in>set recs. \<exists>c n. c \<noteq> [] \<and> n \<noteq> [] \<and> code r = JStr c \<and> name r = JStr n)"
    using fetchAll_nonempty_rows [OF _ locate_flat_envelope, of get req w p es others w'] by blast
next
  assume a: "get req w = (Inr (JObj (meta @ [(''source'', JArr (JObj (smeta @ [(''concept'',
            JArr (JObj (cmeta @ [(''variable'', JArr es)]) # cs))]) # ss))])), w')
     \<and> (\<forall>e\<in>set es. \<exists>c n. c \<noteq> [] \<and> n \<noteq> []
           \<and> subscr e (StrKey ''id'') = Inr (JStr c)
           \<and> subscr e (StrKey ''value'') = Inr (JStr n))"
  then have "\<forall>e\<in>set es. \<exists>c n. c \<noteq> [] \<and> n \<noteq> []
           \<and> subscr e (StrKey ''id'') = Inr (JStr c)
           \<and> subscr e (StrKey (name_key NestedVariable)) = Inr (JStr n)" by simp
  with a show "\<exists>recs. fetchAll get NestedVariable req w = (Inr recs, w') \<and> length recs = length es
       \<and> (\<forall>r\<in>set recs. \<exists>c n. c \<noteq> [] \<and> n \<noteq> [] \<and> code r = JStr c \<and> name r = JStr n)"
    using fetchAll_nonempty_rows [OF _ locate_nested_envelope, of get req w meta smeta cmeta es cs ss w']
    by blast
qed

lemma debtor_response:
  "wb_get debtor_catalog dlocations_request [] = (Inr (wb_response debtor_catalog dlocations_request), [dlocations_request])"
  "locate NestedVariable (wb_response debtor_catalog dlocations_request) = Inr (JArr dlocations)"
proof -
  show "wb_get debtor_catalog dlocations_request []
      = (Inr (wb_response debtor_catalog dlocations_request), [dlocations_request])"
    by (simp add: wb_get_def)
  have "take (page_size dlocations_request) (entries debtor_catalog) = dlocations"
    by (simp add: page_size_def dlocations_request_def debtor_catalog_def dlocations_def)
  with locate_wb_response [of debtor_catalog dlocations_request]
  show "locate NestedVariable (wb_response debtor_catalog dlocations_request) = Inr (JArr dlocations)"
    by (simp add: debtor_catalog_def del: locate.simps)
qed

lemma dlocations_nonempty:
  "\<forall>e\<in>set dlocations. \<exists>c n. c \<noteq> [] \<and> n \<noteq> []
      \<and> subscr e (StrKey ''id'') = Inr (JStr c)
      \<and> subscr e (StrKey (name_key NestedVariable)) = Inr (JStr n)"
  by (simp add: dlocations_def location_def)

lemma indicator_DLXF_nonempty:
  "\<forall>e\<in>set [indicator_DLXF]. \<exists>c n. c \<noteq> [] \<and> n \<noteq> []
      \<and> subscr e (StrKey ''id'') = Inr (JStr c)
      \<and> subscr e (StrKey ''name'') = Inr (JStr n)"
  by (simp add: indicator_DLXF_def)

theorem fetchAll_nonempty_when_entries_are_witness:
  "wb_get debtor_catalog dlocations_request []
      = (Inr (wb_response debtor_catalog dlocations_request), [dlocations_request])
   \<and> locate NestedVariable (wb_response debtor_catalog dlocations_request) = Inr (JArr dlocations)
   \<and> (\<exists>recs. fetchAll (wb_get debtor_catalog) NestedVariable dlocations_request []
          = (Inr recs, [dlocations_request])
        \<and> length recs = 10 \<and> code (recs ! 0) = JStr ''AFG'' \<and> name (recs ! 0) = JStr ''Afghanistan'')
   \<and> (\<exists>recs. fetchAll (wb_get \<lparr>shape = FlatArray, entries = [indicator_DLXF]\<rparr>) FlatArray
          indicators_request [] = (Inr recs, [indicators_request])
        \<and> length recs = 1 \<and> code (recs ! 0) = JStr ''DT.DOD.DLXF.CD'')"
proof -
  let ?fx = "\<lparr>shape = FlatArray, entries = [indicator_DLXF]\<rparr>"
  note t = fetchAll_nonempty_when_entries_are
    [of "wb_get debtor_catalog" dlocations_request "[]" "wb_response debtor_catalog dlocations_request"
        "[dlocations_request]" NestedVariable dlocations]
  note tf = fetchAll_nonempty_when_entries_are
    [of "wb_get ?fx" indicators_request "[]" _ "[indicators_request]" _ "[indicator_DLXF]"
        "JObj (paging ?fx indicators_request)" "[]"]
  note tn = fetchAll_nonempty_when_entries_are
    [of "wb_get debtor_catalog" dlocations_request "[]" _ "[dlocations_request]" _ dlocations
        _ _ "paging debtor_catalog dlocations_request" "[]" "[]" "[]" "[]"]
  have h: "wb_get debtor_catalog dlocations_request []
      = (Inr (wb_response debtor_catalog dlocations_request), [dlocations_request])
     \<and> locate NestedVariable (wb_response debtor_catalog dlocations_request) = Inr (JArr dlocations)
     \<and> (\<forall>e\<in>set dlocations. \<exists>c n. c \<noteq> [] \<and> n \<noteq> []
           \<and> subscr e (StrKey ''id'') = Inr (JStr c)
           \<and> subscr e (StrKey (name_key NestedVariable)) = Inr (JStr n))"
    using debtor_response dlocations_nonempty by (intro conjI)
  from t [THEN conjunct1, THEN mp, OF h] obtain recs where
    r: "fetchAll (wb_get debtor_catalog) NestedVariable dlocations_request []
          = (Inr recs, [dlocations_request])" "length recs = length dlocations"
    by blast
  have "extractRecords NestedVariable (wb_response debtor_catalog dlocations_request) = Inr recs"
    using r(1) debtor_response(1)
      fetchAll_response [of "wb_get debtor_catalog" dlocations_request "[]"
        "wb_response debtor_catalog dlocations_request" "[dlocations_request]" NestedVariable]
    by simp
  then have "map (entry_record NestedVariable) dlocations = map Inr recs"
    using extract_array [OF debtor_response(2)] by blast
  moreover have "0 < length dlocations" "dlocations ! 0 = location ''AFG'' ''Afghanistan''"
    by (simp_all add: dlocations_def)
  ultimately have "entry_record NestedVariable (location ''AFG'' ''Afghanistan'') = Inr (recs ! 0)"
    using r(2) by (metis nth_map)
  then have "code (recs ! 0) = JStr ''AFG''" "name (recs ! 0) = JStr ''Afghanistan''"
    by (simp_all add: entry_record_Inr location_def)
  moreover have "length dlocations = 10" by (simp add: dlocations_def)
  ultimately have a: "\<exists>recs. fetchAll (wb_get debtor_catalog) NestedVariable dlocations_request []
          = (Inr recs, [dlocations_request])
        \<and> length recs = 10 \<and> code (recs ! 0) = JStr ''AFG'' \<and> name (recs ! 0) = JStr ''Afghanistan''"
    using r by auto
  have hn: "wb_get debtor_catalog dlocations_request []
      = (Inr (JObj (paging debtor_catalog dlocations_request @ [(''source'', JArr (JObj ([] @ [(''concept'',
            JArr (JObj ([] @ [(''variable'', JArr dlocations)]) # []))]) # []))])), [dlocations_request])
     \<and> (\<forall>e\<in>set dlocations. \<exists>c n. c \<noteq> [] \<and> n \<noteq> []
           \<and> subscr e (StrKey ''id'') = Inr (JStr c)
           \<and> subscr e (StrKey ''value'') = Inr (JStr n))"
    using dlocations_nonempty
    by (simp add: wb_get_def wb_response_def debtor_catalog_def page_size_def
        dlocations_request_def dlocations_def)
  from tn [THEN conjunct2, THEN conjunct2, THEN mp, OF hn]
  have "\<exists>recs. fetchAll (wb_get debtor_catalog) NestedVariable dlocations_request []
      = (Inr recs, [dlocations_request]) \<and> length recs = length dlocations
       \<and> (\<forall>r\<in>set recs. \<exists>c n. c \<noteq> [] \<and> n \<noteq> [] \<and> code r = JStr c \<and> name r = JStr n)" .
  have hf: "wb_get ?fx indicators_request []
      = (Inr (JArr (JObj (paging ?fx indicators_request) # JArr [indicator_DLXF] # [])), [indicators_request])
     \<and> (\<forall>e\<in>set [indicator_DLXF]. \<exists>c n. c \<noteq> [] \<and> n \<noteq> []
           \<and> subscr e (StrKey ''id'') = Inr (JStr c)
           \<and> subscr e (StrKey ''name'') = Inr (JStr n))"
    using indicator_DLXF_nonempty
    by (simp add: wb_get_def wb_response_def page_size_def indicators_request_def)
  from tf [THEN conjunct2, THEN conjunct1, THEN mp, OF hf] obtain frecs where
    f: "fetchAll (wb_get ?fx) FlatArray indicators_request [] = (Inr frecs, [indicators_request])"
      "length frecs = length [indicator_DLXF]"
    by blast
  have "extractRecords FlatArray (JArr (JObj (paging ?fx indicators_request) # JArr [indicator_DLXF] # []))
      = Inr frecs"
    using f(1) hf
      fetchAll_response [of "wb_get ?fx" indicators_request "[]"
        "JArr (JObj (paging ?fx indicators_request) # JArr [indicator_DLXF] # [])"
        "[indicators_request]" FlatArray]
    by simp
  then have "map (entry_record FlatArray) [indicator_DLXF] = map Inr frecs"
    using extract_array [OF locate_flat_envelope] by blast
  then have "entry_record FlatArray indicator_DLXF = Inr (frecs ! 0)"
    using f(2) by (cases frecs) auto
  then have "code (frecs ! 0) = JStr ''DT.DOD.DLXF.CD''"
    by (simp add: entry_record_Inr indicator_DLXF_def)
  with f have b: "\<exists>recs. fetchAll (wb_get ?fx) FlatArray indicators_request []
      = (Inr recs, [indicators_request]) \<and> length recs = 1 \<and> code (recs ! 0) = JStr ''DT.DOD.DLXF.CD''"
    by auto
  from debtor_response a b show ?thesis by (intro conjI)
qed

text \<open>A response with the same \<open>id\<close> twice: both rows come out, with the same code.\<close>

theorem fetchAll_duplicate_code_counterexample:
  "fetchAll (wb_get \<lparr>shape = NestedVariable,
        entries = [location ''AFG'' ''Afghanistan'', location ''AFG'' ''Afghanistan (duplicate)'']\<rparr>)
      NestedVariable dlocations_request []
     = (Inr [\<lparr>code = JStr ''AFG'', name = JStr ''Afghanistan''\<rparr>,
             \<lparr>code = JStr ''AFG'', name = JStr ''Afghanistan (duplicate)''\<rparr>], [dlocations_request])"
  by (simp add: fetchAll_def wb_get_def wb_response_def entry_record_def page_size_def
      dlocations_request_def location_def paging_def dict_keys_def upt_rec)

text \<open>
  C6, as the code has it. The codes of the rows that \<open>fetchAll\<close> returns are, in order,
  the \<open>id\<close>s of the entries of the response; so the codes are pairwise distinct exactly
  when those \<open>id\<close>s are. \<open>fetchAll\<close> removes no duplicate.
\<close>

theorem fetchAll_codes_are_entry_ids:
  "get req w = (Inr env, w') \<and> locate sch env = Inr (JArr es)
     \<and> fetchAll get sch req w = (Inr recs, w'') \<longrightarrow>
   map (\<lambda>e. subscr e (StrKey ''id'')) es = map (\<lambda>r. Inr (code r)) recs
     \<and> (distinct (map code recs) \<longleftrightarrow> distinct (map (\<lambda>e. subscr e (StrKey ''id'')) es))"
proof
  assume a: "get req w = (Inr env, w') \<and> locate sch env = Inr (JArr es)
     \<and> fetchAll get sch req w = (Inr recs, w'')"
  then have "extractRecords sch env = Inr recs"
    using fetchAll_response [of get req w env w' sch] by simp
  with a have "map (entry_record sch) es = map Inr recs"
    using extract_array [of sch env es recs] by blast
  then have ids: "map (\<lambda>e. subscr e (StrKey ''id'')) es = map (\<lambda>r. Inr (code r)) recs"
    by (rule records_ids)
  have "map (\<lambda>r. Inr (code r) :: py_error + json) recs = map Inr (map code recs)" by simp
  then have "distinct (map (\<lambda>r. Inr (code r) :: py_error + json) recs) \<longleftrightarrow> distinct (map code recs)"
    by (simp add: distinct_map inj_on_def)
  with ids show "map (\<lambda>e. subscr e (StrKey ''id'')) es = map (\<lambda>r. Inr (code r)) recs
     \<and> (distinct (map code recs) \<longleftrightarrow> distinct (map (\<lambda>e. subscr e (StrKey ''id'')) es))"
    by simp
qed

theorem fetchAll_codes_are_entry_ids_witness:
  "\<exists>recs. fetchAll (wb_get debtor_catalog) NestedVariable dlocations_request []
        = (Inr recs, [dlocations_request])
     \<and> map (\<lambda>e. subscr e (StrKey ''id'')) dlocations = map (\<lambda>r. Inr (code r)) recs
     \<and> distinct (map code recs)"
proof -
  have "\<forall>e\<in>set dlocations. \<exists>c n. subscr e (StrKey ''id'') = Inr c
      \<and> subscr e (StrKey (name_key NestedVariable)) = Inr n"
    using dlocations_nonempty by blast
  from both_keys_record [OF this] obtain recs
    where r: "map (entry_record NestedVariable) dlocations = map Inr recs" ..
  then have "extractRecords NestedVariable (wb_response debtor_catalog dlocations_request) = Inr recs"
    using extract_array [OF debtor_response(2)] by blast
  then have f: "fetchAll (wb_get debtor_catalog) NestedVariable dlocations_request []
      = (Inr recs, [dlocations_request])"
    using debtor_response(1)
      fetchAll_response [of "wb_get debtor_catalog" dlocations_request "[]"
        "wb_response debtor_catalog dlocations_request" "[dlocations_request]" NestedVariable]
    by simp
  note t = fetchAll_codes_are_entry_ids
    [of "wb_get debtor_catalog" dlocations_request "[]" "wb_response debtor_catalog dlocations_request"
        "[dlocations_request]" NestedVariable dlocations recs "[dlocations_request]"]
  have h: "wb_get debtor_catalog dlocations_request []
      = (Inr (wb_response debtor_catalog dlocations_request), [dlocations_request])
     \<and> locate NestedVariable (wb_response debtor_catalog dlocations_request) = Inr (JArr dlocations)
     \<and> fetchAll (wb_get debtor_catalog) NestedVariable dlocations_request []
        = (Inr recs, [dlocations_request])"
    using debtor_response f by (intro conjI)
  from t [THEN mp, OF h]
  have m: "map (\<lambda>e. subscr e (StrKey ''id'')) dlocations = map (\<lambda>r. Inr (code r)) recs"
    and d: "distinct (map code recs) \<longleftrightarrow> distinct (map (\<lambda>e. subscr e (StrKey ''id'')) dlocations)"
    by blast+
  have "distinct (map (\<lambda>e. subscr e (StrKey ''id'')) dlocations)"
    by (simp add: dlocations_def location_def)
  with d have "distinct (map code recs)" by simp
  with f m show ?thesis by blast
qed

lemma fetchAll_wb_any_history:
  "fst (fetchAll (wb_get fx) sch req seen) = fst (fetchAll (wb_get fx) sch req seen')"
  by (simp add: fetchAll_def wb_get_def)

text \<open>
  C7. \<open>fetchAll\<close> changes the world only through its one GET, and its result is a function
  of the response. So when the transport answers the repeated request as it answered
  the first, the second call of \<open>fetchAll\<close>, made in the world the first one left, returns
  the same rows in the same order, or the same exception. The paging server answers from
  its catalog whatever it has been asked before, so against it this always holds.
\<close>

theorem fetchAll_repeatable:
  "snd (fetchAll get sch req w) = snd (get req w)
   \<and> (fst (get req (snd (get req w))) = fst (get req w) \<longrightarrow>
        fst (fetchAll get sch req (snd (fetchAll get sch req w))) = fst (fetchAll get sch req w))
   \<and> fst (fetchAll (wb_get fx) sch req (snd (fetchAll (wb_get fx) sch req seen)))
        = fst (fetchAll (wb_get fx) sch req seen)"
proof (intro conjI impI)
  show "snd (fetchAll get sch req w) = snd (get req w)"
    by (rule fetchAll_world)
next
  assume a: "fst (get req (snd (get req w))) = fst (get req w)"
  obtain r1 w1 where g1: "get req w = (r1, w1)" by (cases "get req w")
  obtain r2 w2 where g2: "get req w1 = (r2, w2)" by (cases "get req w1")
  from a g1 g2 have "r2 = r1" by simp
  with g1 g2 show "fst (fetchAll get sch req (snd (fetchAll get sch req w)))
      = fst (fetchAll get sch req w)"
    by (simp add: fetchAll_world) (simp add: fetchAll_def split: sum.splits)
next
  show "fst (fetchAll (wb_get fx) sch req (snd (fetchAll (wb_get fx) sch req seen)))
        = fst (fetchAll (wb_get fx) sch req seen)"
    by (rule fetchAll_wb_any_history)
qed

theorem fetchAll_repeatable_witness:
  "fst (wb_get debtor_catalog dlocations_request (snd (wb_get debtor_catalog dlocations_request [])))
      = fst (wb_get debtor_catalog dlocations_request [])
   \<and> fst (fetchAll (wb_get debtor_catalog) NestedVariable dlocations_request
        (snd (fetchAll (wb_get debtor_catalog) NestedVariable dlocations_request [])))
      = fst (fetchAll (wb_get debtor_catalog) NestedVariable dlocations_request [])
   \<and> snd (fetchAll (wb_get debtor_catalog) NestedVariable dlocations_request []) = [dlocations_request]"
proof -
  note t = fetchAll_repeatable [of "wb_get debtor_catalog" NestedVariable dlocations_request "[]"]
  have h: "fst (wb_get debtor_catalog dlocations_request (snd (wb_get debtor_catalog dlocations_request [])))
      = fst (wb_get debtor_catalog dlocations_request [])"
    by (simp add: wb_get_def)
  have w: "snd (wb_get debtor_catalog dlocations_request []) = [dlocations_request]"
    by (simp add: wb_get_def)
  from t [THEN conjunct2, THEN conjunct1, THEN mp, OF h] t [THEN conjunct1] h w
  show ?thesis by simp
qed

section \<open>Rounding to billions\<close>

lemma round_half_even_near: "\<bar>of_int (round_half_even y) - y\<bar> \<le> 1 / 2"
proof -
  have "0 \<le> y - of_int \<lfloor>y\<rfloor>" "y - of_int \<lfloor>y\<rfloor> < 1" by linarith+
  then show ?thesis unfolding round_half_even_def Let_def by (auto simp: abs_le_iff)
qed

lemma round_half_even_of_int [simp]: "round_half_even (of_int m) = m"
  by (simp add: round_half_even_def)

lemma round_half_even_zero [simp]: "round_half_even 0 = 0"
  using round_half_even_of_int [of 0] by simp

lemma round_half_even_tie:
  assumes "\<bar>of_int (round_half_even y) - y\<bar> = 1 / 2"
  shows "even (round_half_even y)"
proof -
  define f where "f = \<lfloor>y\<rfloor>"
  define d where "d = y - of_int f"
  have b: "0 \<le> d" "d < 1" unfolding d_def f_def by linarith+
  have y: "y = of_int f + d" by (simp add: d_def)
  show ?thesis
  proof (cases "d = 1 / 2")
    case True
    then show ?thesis
      unfolding round_half_even_def Let_def f_def [symmetric] d_def [symmetric] by simp
  next
    case False
    have "\<bar>of_int (round_half_even y) - y\<bar> \<noteq> 1 / 2"
      using False b unfolding round_half_even_def Let_def f_def [symmetric] d_def [symmetric]
      by (auto simp: y abs_if)
    with assms show ?thesis by simp
  qed
qed

lemma round_half_even_unique:
  assumes n: "\<bar>of_int k - y\<bar> \<le> 1 / 2" and t: "\<bar>of_int k - y\<bar> = 1 / 2 \<longrightarrow> even k"
  shows "k = round_half_even y"
proof -
  define f where "f = \<lfloor>y\<rfloor>"
  define d where "d = y - of_int f"
  have b: "0 \<le> d" "d < 1" unfolding d_def f_def by linarith+
  have y: "y = of_int f + d" by (simp add: d_def)
  have kf: "k = f \<or> k = f + 1"
  proof -
    have "of_int k - (of_int f :: rat) \<le> 1 / 2 + d" "- (1 / 2) + d \<le> of_int k - (of_int f :: rat)"
      using n y by linarith+
    then have "(of_int (k - f) :: rat) < 2" "(-1 :: rat) < of_int (k - f)" using b by auto
    then have "k - f < 2" "-1 < k - f"
      by (simp_all only: of_int_less_iff [symmetric, where ?'a = rat] of_int_numeral of_int_minus of_int_1)
    then show ?thesis by auto
  qed
  consider "d < 1 / 2" | "1 / 2 < d" | "d = 1 / 2" by linarith
  then show ?thesis
  proof cases
    case 1
    then have "k \<noteq> f + 1" using n b y by auto
    with kf 1 show ?thesis
      unfolding round_half_even_def Let_def f_def [symmetric] d_def [symmetric] by simp
  next
    case 2
    then have "k \<noteq> f" using n b y by auto
    with kf 2 show ?thesis
      unfolding round_half_even_def Let_def f_def [symmetric] d_def [symmetric] by simp
  next
    case 3
    have "\<bar>of_int k - y\<bar> = 1 / 2" using kf 3 by (auto simp: y)
    with t have "even k" by simp
    with kf 3 show ?thesis
      unfolding round_half_even_def Let_def f_def [symmetric] d_def [symmetric] by auto
  qed
qed

lemma bitlen_rat_bounds:
  assumes "0 < a"
  shows "(2::rat) powi (bitlen a - 1) \<le> of_int a" "of_int a < (2::rat) powi (bitlen a)"
proof -
  from bitlen_bounds [OF assms] have b: "2 ^ nat (bitlen a - 1) \<le> a" "a < 2 ^ nat (bitlen a)"
    by simp_all
  have p: "1 \<le> bitlen a" using assms by (auto simp: bitlen_alt_def)
  have "(of_int (2 ^ nat (bitlen a - 1)) :: rat) \<le> of_int a" using b(1) by (simp only: of_int_le_iff)
  then show "(2::rat) powi (bitlen a - 1) \<le> of_int a"
    using p by (simp add: power_int_def)
  have "(of_int a :: rat) < of_int (2 ^ nat (bitlen a))" using b(2) by (simp only: of_int_less_iff)
  then show "of_int a < (2::rat) powi (bitlen a)"
    using p by (simp add: power_int_def)
qed

lemma binary_exponent_bounds:
  assumes "q \<noteq> 0"
  shows "2 powi (binary_exponent q) \<le> \<bar>q\<bar>" "\<bar>q\<bar> < 2 powi (binary_exponent q + 1)"
proof -
  obtain a b where ab: "quotient_of \<bar>q\<bar> = (a, b)" by (cases "quotient_of \<bar>q\<bar>")
  then have bpos: "0 < b" by (rule quotient_of_denom_pos)
  have q: "\<bar>q\<bar> = of_int a / of_int b" using ab by (rule quotient_of_div)
  have "0 < \<bar>q\<bar>" using assms by simp
  then have apos: "0 < a" using q bpos by (simp add: zero_less_divide_iff)
  define d where "d = bitlen a - bitlen b"
  have bp: "0 < (of_int b :: rat)" using bpos by simp
  have pw: "0 < (2::rat) powi k" for k by (simp add: zero_less_power_int)
  have pos: "0 < of_int b * (2::rat) powi k" for k by (intro mult_pos_pos bp pw)
  have lo: "2 powi (d - 1) < \<bar>q\<bar>"
  proof -
    have "(2::rat) powi (d - 1) = 2 powi (bitlen a - 1) / 2 powi (bitlen b)"
      by (simp add: d_def power_int_diff [symmetric] algebra_simps)
    also have "\<dots> \<le> of_int a / 2 powi (bitlen b)"
      using bitlen_rat_bounds(1) [OF apos] by (simp add: divide_right_mono)
    also have "\<dots> < of_int a / of_int b"
    proof (rule divide_strict_left_mono)
      show "of_int b < (2::rat) powi bitlen b" by (rule bitlen_rat_bounds(2) [OF bpos])
      show "0 < (of_int a :: rat)" using apos by simp
      show "0 < (2::rat) powi bitlen b * of_int b" using pos [of "bitlen b"] by (simp add: mult.commute)
    qed
    finally show ?thesis by (simp add: q)
  qed
  have hi: "\<bar>q\<bar> < 2 powi (d + 1)"
  proof -
    have "of_int a / (of_int b :: rat) < 2 powi (bitlen a) / of_int b"
      using bitlen_rat_bounds(2) [OF apos] bp by (simp add: divide_strict_right_mono)
    also have "\<dots> \<le> 2 powi (bitlen a) / 2 powi (bitlen b - 1)"
    proof (rule divide_left_mono)
      show "(2::rat) powi (bitlen b - 1) \<le> of_int b" by (rule bitlen_rat_bounds(1) [OF bpos])
      show "0 \<le> (2::rat) powi bitlen a" using pw [of "bitlen a"] by simp
      show "0 < of_int b * (2::rat) powi (bitlen b - 1)" by (rule pos)
    qed
    also have "\<dots> = 2 powi (d + 1)"
      by (simp add: d_def power_int_diff [symmetric] algebra_simps)
    finally show ?thesis by (simp add: q)
  qed
  have e: "binary_exponent q = (if 2 powi d \<le> \<bar>q\<bar> then d else d - 1)"
    by (simp add: binary_exponent_def ab d_def Let_def)
  show "2 powi (binary_exponent q) \<le> \<bar>q\<bar>"
    using lo by (auto simp: e intro: less_imp_le)
  show "\<bar>q\<bar> < 2 powi (binary_exponent q + 1)"
    using hi by (auto simp: e)
qed

lemma two_powi_pos: "0 < (2::rat) powi k"
  by (simp add: zero_less_power_int)

lemma binary_exponent_unique:
  assumes "2 powi e \<le> \<bar>q\<bar>" "\<bar>q\<bar> < 2 powi (e + 1)"
  shows "binary_exponent q = e"
proof -
  have "0 < \<bar>q\<bar>" using assms(1) two_powi_pos [of e] by linarith
  then have q: "q \<noteq> 0" by simp
  note b = binary_exponent_bounds [OF q]
  have "\<not> e + 1 \<le> binary_exponent q"
  proof
    assume "e + 1 \<le> binary_exponent q"
    then have "(2::rat) powi (e + 1) \<le> 2 powi (binary_exponent q)"
      by (intro power_int_increasing) auto
    with b(1) assms(2) show False by linarith
  qed
  moreover have "\<not> binary_exponent q + 1 \<le> e"
  proof
    assume "binary_exponent q + 1 \<le> e"
    then have "(2::rat) powi (binary_exponent q + 1) \<le> 2 powi e"
      by (intro power_int_increasing) auto
    with b(2) assms(1) show False by linarith
  qed
  ultimately show ?thesis by linarith
qed

lemma nearest_double_ulp:
  "q \<noteq> 0 \<Longrightarrow> nearest_double q = of_int (round_half_even (q / ulp q)) * ulp q"
  by (simp add: nearest_double_def)

lemma ulp_pos: "0 < ulp q"
  by (simp add: ulp_def two_powi_pos)

lemma nearest_double_half_ulp: "\<bar>nearest_double q - q\<bar> \<le> ulp q / 2"
proof (cases "q = 0")
  case True
  then show ?thesis using ulp_pos [of q] by (simp add: nearest_double_def)
next
  case False
  have "\<bar>of_int (round_half_even (q / ulp q)) - q / ulp q\<bar> * ulp q \<le> 1 / 2 * ulp q"
    using round_half_even_near [of "q / ulp q"] ulp_pos [of q] by (intro mult_right_mono) auto
  moreover have "\<bar>of_int (round_half_even (q / ulp q)) - q / ulp q\<bar> * ulp q
      = \<bar>of_int (round_half_even (q / ulp q)) * ulp q - q\<bar>"
  proof -
    have "\<bar>of_int (round_half_even (q / ulp q)) - q / ulp q\<bar> * ulp q
        = \<bar>(of_int (round_half_even (q / ulp q)) - q / ulp q) * ulp q\<bar>"
      using ulp_pos [of q] by (simp add: abs_mult)
    also have "(of_int (round_half_even (q / ulp q)) - q / ulp q) * ulp q
        = of_int (round_half_even (q / ulp q)) * ulp q - q"
      using ulp_pos [of q] by (simp add: left_diff_distrib)
    finally show ?thesis .
  qed
  ultimately show ?thesis using False by (simp add: nearest_double_ulp)
qed

lemma exponent_normal:
  assumes "2 powi (- 1022) \<le> \<bar>q\<bar>"
  shows "- 1022 \<le> binary_exponent q"
proof (rule ccontr)
  assume "\<not> - 1022 \<le> binary_exponent q"
  then have "binary_exponent q + 1 \<le> - 1022" by simp
  then have "(2::rat) powi (binary_exponent q + 1) \<le> 2 powi (- 1022)"
    by (intro power_int_increasing) auto
  moreover have "0 < \<bar>q\<bar>" using assms two_powi_pos [of "- 1022"] by linarith
  then have "q \<noteq> 0" by simp
  ultimately show False using binary_exponent_bounds(2) [of q] assms by linarith
qed

lemma nearest_double_relative:
  assumes "2 powi (- 1022) \<le> \<bar>q\<bar>"
  shows "\<bar>nearest_double q - q\<bar> \<le> \<bar>q\<bar> / 2 ^ 53"
proof -
  have "0 < \<bar>q\<bar>" using assms two_powi_pos [of "- 1022"] by linarith
  then have q: "q \<noteq> 0" by simp
  have e: "max (binary_exponent q) (- 1022) = binary_exponent q"
    using exponent_normal [OF assms] by simp
  have "ulp q / 2 = 2 powi (binary_exponent q) / 2 ^ 53"
  proof -
    have "ulp q = 2 powi (binary_exponent q) / 2 powi 52"
      unfolding ulp_def e by (simp add: power_int_diff)
    then show ?thesis by simp
  qed
  also have "\<dots> \<le> \<bar>q\<bar> / 2 ^ 53"
    using binary_exponent_bounds(1) [OF q] by (simp add: divide_right_mono)
  finally show ?thesis using nearest_double_half_ulp [of q] by linarith
qed

lemma nearest_double_exact:
  assumes "q \<noteq> 0" "q = of_int m * ulp q"
  shows "nearest_double q = q"
proof -
  have "q / ulp q = of_int m" using assms(2) ulp_pos [of q] by (simp add: field_simps)
  then show ?thesis using assms by (simp add: nearest_double_ulp)
qed

lemma nearest_double_half_integer:
  assumes "\<bar>of_int h / 2 :: rat\<bar> < 2 ^ 52"
  shows "nearest_double (of_int h / 2) = of_int h / 2"
proof (cases "h = 0")
  case True
  then show ?thesis by (simp add: nearest_double_def)
next
  case False
  let ?q = "of_int h / 2 :: rat"
  let ?b = "binary_exponent ?q"
  have q: "?q \<noteq> 0" using False by simp
  note b = binary_exponent_bounds [OF q]
  have half: "1 / 2 \<le> \<bar>?q\<bar>"
  proof -
    have "1 \<le> \<bar>h\<bar>" using False by simp
    then have "(of_int 1 :: rat) \<le> of_int \<bar>h\<bar>" by (simp only: of_int_le_iff)
    then have "(1::rat) \<le> \<bar>of_int h\<bar>" by simp
    then show ?thesis by simp
  qed
  have lo: "- 1 \<le> ?b"
  proof (rule ccontr)
    assume "\<not> - 1 \<le> ?b"
    then have "?b + 1 \<le> - 1" by simp
    then have "(2::rat) powi (?b + 1) \<le> 2 powi (- 1)"
      by (intro power_int_increasing) auto
    with b(2) half show False by simp
  qed
  have hi: "?b \<le> 51"
  proof (rule ccontr)
    assume "\<not> ?b \<le> 51"
    then have "52 \<le> ?b" by simp
    then have "(2::rat) powi 52 \<le> 2 powi ?b"
      by (intro power_int_increasing) auto
    with b(1) assms show False by simp
  qed
  define j where "j = nat (51 - ?b)"
  have u: "ulp ?q = 2 powi (?b - 52)" using lo by (simp add: ulp_def)
  have "of_int (h * 2 ^ j) * ulp ?q = of_int h * ((2::rat) powi (int j) * 2 powi (?b - 52))"
    by (simp add: u)
  also have "(2::rat) powi (int j) * 2 powi (?b - 52) = 2 powi (int j + (?b - 52))"
    by (simp add: power_int_add)
  also have "int j + (?b - 52) = - 1" using hi by (simp add: j_def)
  finally have "?q = of_int (h * 2 ^ j) * ulp ?q" by simp
  with q show ?thesis by (rule nearest_double_exact)
qed

lemma round_half_even_sign:
  "0 \<le> y \<Longrightarrow> 0 \<le> round_half_even y" "y \<le> 0 \<Longrightarrow> round_half_even y \<le> 0"
proof -
  have f: "0 \<le> y - of_int \<lfloor>y\<rfloor>" "y - of_int \<lfloor>y\<rfloor> < 1" by linarith+
  show "0 \<le> round_half_even y" if "0 \<le> y"
  proof -
    have "0 \<le> \<lfloor>y\<rfloor>" using that by simp
    then show ?thesis unfolding round_half_even_def Let_def by auto
  qed
  show "round_half_even y \<le> 0" if "y \<le> 0"
  proof (cases "y = of_int \<lfloor>y\<rfloor>")
    case True
    then have "\<lfloor>y\<rfloor> \<le> 0" using that by linarith
    moreover have "y - of_int \<lfloor>y\<rfloor> = 0" using True by simp
    ultimately show ?thesis unfolding round_half_even_def Let_def by simp
  next
    case False
    then have "of_int \<lfloor>y\<rfloor> < y" using f(1) by linarith
    then have "\<lfloor>y\<rfloor> < 0" using that by linarith
    then show ?thesis unfolding round_half_even_def Let_def by auto
  qed
qed

lemma nearest_double_sign:
  "0 \<le> q \<Longrightarrow> 0 \<le> nearest_double q" "q \<le> 0 \<Longrightarrow> nearest_double q \<le> 0"
proof -
  show "0 \<le> nearest_double q" if "0 \<le> q"
  proof (cases "q = 0")
    case False
    have "0 \<le> q / ulp q" using that ulp_pos [of q] by simp
    then have "0 \<le> round_half_even (q / ulp q)" by (rule round_half_even_sign)
    then show ?thesis using ulp_pos [of q] False by (simp add: nearest_double_ulp)
  qed (simp add: nearest_double_def)
  show "nearest_double q \<le> 0" if "q \<le> 0"
  proof (cases "q = 0")
    case False
    have "q / ulp q \<le> 0" using that ulp_pos [of q] by (simp add: divide_le_0_iff)
    then have "round_half_even (q / ulp q) \<le> 0" by (rule round_half_even_sign)
    then show ?thesis using ulp_pos [of q] False
      by (simp add: nearest_double_ulp mult_le_0_iff)
  qed (simp add: nearest_double_def)
qed

lemma half_ulp_bound: "ulp q / 2 \<le> \<bar>q\<bar> + 1"
proof (cases "- 1022 \<le> binary_exponent q \<and> q \<noteq> 0")
  case True
  then have "ulp q = 2 powi (binary_exponent q) / 2 powi 52"
    by (simp add: ulp_def power_int_diff)
  then have "ulp q / 2 = 2 powi (binary_exponent q) / 2 ^ 53" by simp
  also have "\<dots> \<le> 2 powi (binary_exponent q)"
    using two_powi_pos [of "binary_exponent q"] by (simp add: field_simps)
  also have "\<dots> \<le> \<bar>q\<bar>" using True binary_exponent_bounds(1) by simp
  finally show ?thesis by simp
next
  case False
  have "binary_exponent 0 = - 2" by code_simp
  with False have "max (binary_exponent q) (- 1022) \<le> 0" by (cases "q = 0") auto
  then have "max (binary_exponent q) (- 1022) - 52 \<le> 0" by simp
  then have "ulp q \<le> 2 powi 0"
    unfolding ulp_def by (intro power_int_increasing) auto
  then show ?thesis by simp
qed

lemma nearest_double_in_range:
  assumes "\<bar>x\<bar> < 2 ^ 1024"
  shows "\<bar>nearest_double (x / 1000000000)\<bar> < 2 ^ 1024"
proof -
  let ?q = "x / 1000000000"
  have "\<bar>nearest_double ?q\<bar> \<le> \<bar>?q\<bar> + \<bar>nearest_double ?q - ?q\<bar>" by linarith
  also have "\<dots> \<le> 2 * \<bar>?q\<bar> + 1"
    using nearest_double_half_ulp [of ?q] half_ulp_bound [of ?q] by linarith
  also have "\<dots> = \<bar>x\<bar> / 500000000 + 1" by simp
  also have "\<dots> < 2 ^ 1024 / 500000000 + 1" using assms by (simp add: divide_strict_right_mono)
  also have "\<dots> \<le> (2 ^ 1024 :: rat)" by simp
  finally show ?thesis .
qed

lemma formatNum_int:
  "formatNum (PyInt n) =
     (if 2 ^ 1024 \<le> \<bar>nearest_double (of_int n / 1000000000)\<bar> then Inl OverflowError
      else Inr (PyInt (round_half_even (nearest_double (of_int n / 1000000000)))))"
  by (simp add: formatNum_def int_div_billion_def Let_def)

lemma formatNum_float:
  assumes "\<bar>x\<bar> < 2 ^ 1024"
  shows "formatNum (PyFloat (Finite x)) =
     Inr (PyInt (round_half_even (nearest_double (x / 1000000000))))"
  using nearest_double_in_range [OF assms]
  by (simp add: formatNum_def as_float_def)

lemma rint_quotient:
  assumes "\<bar>x\<bar> < 2 ^ 1024"
  shows "rint (float_div_billion (Finite x)) =
     (if round_half_even (nearest_double (x / 1000000000)) = 0 \<and> x < 0 then NegZero
      else Finite (of_int (round_half_even (nearest_double (x / 1000000000)))))"
proof -
  let ?r = "nearest_double (x / 1000000000)"
  have r: "\<not> 2 ^ 1024 \<le> \<bar>?r\<bar>" using nearest_double_in_range [OF assms] by simp
  show ?thesis
  proof (cases "x < 0")
    case True
    then have "?r \<le> 0" by (intro nearest_double_sign) simp
    then show ?thesis using True r by (auto simp: as_float_def Let_def)
  next
    case False
    then have "0 \<le> ?r" by (intro nearest_double_sign) simp
    then show ?thesis using False r by (auto simp: as_float_def Let_def)
  qed
qed

lemma int_quotient_normal:
  assumes "n \<noteq> 0"
  shows "2 powi (- 1022) \<le> \<bar>of_int n / 1000000000 :: rat\<bar>"
proof -
  have "1 \<le> \<bar>n\<bar>" using assms by simp
  then have "(of_int 1 :: rat) \<le> of_int \<bar>n\<bar>" by (simp only: of_int_le_iff)
  then have "(1::rat) \<le> \<bar>of_int n\<bar>" by simp
  then have "(1::rat) / 1000000000 \<le> \<bar>of_int n / 1000000000\<bar>" by simp
  moreover have "(2::rat) powi (- 1022) \<le> 1 / 1000000000"
    by (simp add: power_int_minus field_simps)
  ultimately show ?thesis by linarith
qed

lemma int_quotient_close:
  "\<bar>nearest_double (of_int n / 1000000000) - of_int n / 1000000000\<bar>
     \<le> \<bar>of_int n / 1000000000 :: rat\<bar> / 2 ^ 53"
proof (cases "n = 0")
  case True
  then show ?thesis by (simp add: nearest_double_def)
next
  case False
  from nearest_double_relative [OF int_quotient_normal [OF False]] show ?thesis .
qed

lemma formatNum_half_billions:
  assumes "500000000 dvd n" "\<bar>n\<bar> < 2 ^ 52 * 1000000000"
  shows "formatNum (PyInt n) = Inr (PyInt (round_half_even (of_int n / 1000000000)))"
proof -
  from assms(1) obtain h where h: "n = 500000000 * h" ..
  have q: "(of_int n / 1000000000 :: rat) = of_int h / 2" by (simp add: h)
  have "(of_int \<bar>n\<bar> :: rat) < of_int (2 ^ 52 * 1000000000)"
    using assms(2) by (simp only: of_int_less_iff)
  then have "\<bar>of_int n :: rat\<bar> < 2 ^ 52 * 1000000000" by simp
  then have "\<bar>of_int h / 2 :: rat\<bar> < 2 ^ 52" by (simp add: h abs_mult)
  from nearest_double_half_integer [OF this]
  have e: "nearest_double (of_int n / 1000000000) = of_int n / 1000000000" by (simp add: q)
  have "\<bar>of_int n / 1000000000 :: rat\<bar> < 2 ^ 1024"
    using \<open>\<bar>of_int h / 2 :: rat\<bar> < 2 ^ 52\<close> by (simp add: q)
  then show ?thesis by (simp add: formatNum_int e)
qed

lemma off_tie_gap:
  assumes "\<bar>of_int k - of_int n / 1000000000 :: rat\<bar> < 1 / 2"
  shows "\<bar>of_int k - of_int n / 1000000000 :: rat\<bar> \<le> 1 / 2 - 1 / 1000000000"
proof -
  have e: "\<bar>of_int k - of_int n / 1000000000 :: rat\<bar> = of_int \<bar>1000000000 * k - n\<bar> / 1000000000"
    by (simp add: abs_if field_simps)
  from assms have "(of_int \<bar>1000000000 * k - n\<bar> :: rat) < of_int 500000000"
    unfolding e by (simp add: field_simps)
  then have "\<bar>1000000000 * k - n\<bar> < 500000000" by (simp only: of_int_less_iff)
  then have "\<bar>1000000000 * k - n\<bar> \<le> 499999999" by simp
  then have "(of_int \<bar>1000000000 * k - n\<bar> :: rat) \<le> of_int 499999999" by (simp only: of_int_le_iff)
  then show ?thesis unfolding e by (simp add: field_simps)
qed

lemma on_tie_dvd:
  assumes "\<bar>of_int k - of_int n / 1000000000 :: rat\<bar> = 1 / 2"
  shows "500000000 dvd n"
proof -
  have e: "\<bar>of_int k - of_int n / 1000000000 :: rat\<bar> = of_int \<bar>1000000000 * k - n\<bar> / 1000000000"
    by (simp add: abs_if field_simps)
  from assms have "(of_int \<bar>1000000000 * k - n\<bar> :: rat) = of_int 500000000"
    unfolding e by (simp add: field_simps)
  then have "\<bar>1000000000 * k - n\<bar> = 500000000" by (simp only: of_int_eq_iff)
  then have "n = 500000000 * (2 * k - 1) \<or> n = 500000000 * (2 * k + 1)" by (auto simp: abs_if split: if_splits)
  then show ?thesis by auto
qed

lemma round_quotient_exact:
  assumes "\<bar>n\<bar> < 2 ^ 53"
  shows "round_half_even (nearest_double (of_int n / 1000000000)) =
         round_half_even (of_int n / 1000000000)"
proof -
  let ?q = "of_int n / 1000000000 :: rat"
  let ?k = "round_half_even ?q"
  have "(of_int \<bar>n\<bar> :: rat) < of_int (2 ^ 53)" using assms by (simp only: of_int_less_iff)
  then have n: "\<bar>of_int n :: rat\<bar> < 2 ^ 53" by simp
  have near: "\<bar>of_int ?k - ?q\<bar> \<le> 1 / 2" by (rule round_half_even_near)
  show ?thesis
  proof (cases "\<bar>of_int ?k - ?q\<bar> = 1 / 2")
    case True
    from on_tie_dvd [OF True] obtain h where h: "n = 500000000 * h" ..
    have q: "?q = of_int h / 2" by (simp add: h)
    have "\<bar>of_int h / 2 :: rat\<bar> < 2 ^ 52" using n by (simp add: h abs_mult)
    from nearest_double_half_integer [OF this]
    have "nearest_double ?q = ?q" unfolding q .
    then show ?thesis by (simp only:)
  next
    case False
    with near have "\<bar>of_int ?k - ?q\<bar> < 1 / 2" by simp
    from off_tie_gap [OF this] have g: "\<bar>of_int ?k - ?q\<bar> \<le> 1 / 2 - 1 / 1000000000" .
    have "\<bar>?q\<bar> / 2 ^ 53 < 1 / 1000000000" using n by (simp add: field_simps)
    with int_quotient_close [of n]
    have c: "\<bar>nearest_double ?q - ?q\<bar> < 1 / 1000000000" by linarith
    have "\<bar>of_int ?k - nearest_double ?q\<bar> < 1 / 2" using g c by linarith
    then have "?k = round_half_even (nearest_double ?q)"
      by (intro round_half_even_unique) simp_all
    then show ?thesis by simp
  qed
qed

lemma int_in_range:
  assumes "\<bar>n\<bar> < 2 ^ 53"
  shows "\<bar>of_int n :: rat\<bar> < 2 ^ 1024"
proof -
  have "(of_int \<bar>n\<bar> :: rat) < of_int (2 ^ 53)" using assms by (simp only: of_int_less_iff)
  then have "\<bar>of_int n :: rat\<bar> < 2 ^ 53" by simp
  moreover have "(2 ^ 53 :: rat) \<le> 2 ^ 1024" by simp
  ultimately show ?thesis by linarith
qed

lemma formatNum_int_exact:
  assumes "\<bar>n\<bar> < 2 ^ 53"
  shows "formatNum (PyInt n) = Inr (PyInt (round_half_even (of_int n / 1000000000)))"
proof -
  have "\<not> 2 ^ 1024 \<le> \<bar>nearest_double (of_int n / 1000000000)\<bar>"
    using nearest_double_in_range [OF int_in_range [OF assms]] by simp
  then show ?thesis by (simp add: formatNum_int round_quotient_exact [OF assms])
qed

lemma formatNum_float_exact:
  assumes "\<bar>n\<bar> < 2 ^ 53"
  shows "formatNum (PyFloat (Finite (of_int n))) =
         Inr (PyInt (round_half_even (of_int n / 1000000000)))"
  using formatNum_float [OF int_in_range [OF assms]] round_quotient_exact [OF assms] by simp

lemma rint_quotient_exact:
  assumes "\<bar>n\<bar> < 2 ^ 53"
  shows "rint (float_div_billion (Finite (of_int n))) =
     (if round_half_even (of_int n / 1000000000) = 0 \<and> n < 0 then NegZero
      else Finite (of_int (round_half_even (of_int n / 1000000000))))"
  using rint_quotient [OF int_in_range [OF assms]] round_quotient_exact [OF assms] by simp

lemma formatNum_overflow:
  assumes "2 ^ 1025 * 1000000000 \<le> \<bar>n\<bar>"
  shows "formatNum (PyInt n) = Inl OverflowError"
proof -
  let ?q = "of_int n / 1000000000 :: rat"
  have "(of_int (2 ^ 1025 * 1000000000) :: rat) \<le> of_int \<bar>n\<bar>"
    using assms by (simp only: of_int_le_iff)
  then have "(2 ^ 1025 * 1000000000 :: rat) \<le> \<bar>of_int n\<bar>" by simp
  then have q: "2 ^ 1025 \<le> \<bar>?q\<bar>" by (simp add: field_simps)
  have "\<bar>?q\<bar> / 2 ^ 53 \<le> \<bar>?q\<bar> / 2" by (simp add: field_simps)
  with int_quotient_close [of n] have "\<bar>nearest_double ?q - ?q\<bar> \<le> \<bar>?q\<bar> / 2" by linarith
  then have "\<bar>?q\<bar> / 2 \<le> \<bar>nearest_double ?q\<bar>" by linarith
  moreover have "(2 ^ 1024 :: rat) \<le> \<bar>?q\<bar> / 2" using q by simp
  ultimately have "2 ^ 1024 \<le> \<bar>nearest_double ?q\<bar>" by linarith
  then show ?thesis by (simp add: formatNum_int)
qed

text \<open>
  The rounding of the exact quotient is not what the code computes in general: beyond
  \<open>2 ^ 53\<close> the double nearest to the quotient can sit on the other side of a tie, an int
  too large for a float raises, NaN raises, and a float column comes back as floats.
\<close>

theorem formatNum_exact_quotient_counterexample:
  "formatNum (PyInt 16777216500000001) = Inr (PyInt 16777216)
   \<and> round_half_even (16777216500000001 / 1000000000) = 16777217
   \<and> formatNum (PyInt (10 ^ 400)) = Inl OverflowError
   \<and> formatNum (PyFloat NaN) = Inl ValueError
   \<and> formatNum (Series [Finite 1500000000, NaN]) = Inr (Series [Finite 2, NaN])"
proof -
  have a: "formatNum (PyInt 16777216500000001) = Inr (PyInt 16777216)" by code_simp
  have b: "round_half_even (16777216500000001 / 1000000000) = 16777217" by code_simp
  have "2 ^ 1025 * 1000000000 \<le> \<bar>10 ^ 400 :: int\<bar>" by simp
  then have e: "formatNum (PyInt (10 ^ 400)) = Inl OverflowError" by (rule formatNum_overflow)
  have f: "formatNum (PyFloat NaN) = Inl ValueError" by code_simp
  have g: "formatNum (Series [Finite 1500000000, NaN]) = Inr (Series [Finite 2, NaN])"
    by code_simp
  from a b e f g show ?thesis by (intro conjI)
qed

text \<open>
  C9, as the code has it. \<^verbatim>\<open>formatNum(x)\<close> is \<^verbatim>\<open>round(x / 1000000000)\<close> with the quotient taken
  in double precision: the exact quotient is first rounded to the nearest double
  (\<open>nearest_double\<close>: a multiple of \<open>ulp\<close>, at most half an \<open>ulp\<close> away, and for an int within
  a relative error of \<open>2 ^ -53\<close>), and that double is rounded to the nearest integer, a tie
  going to the even one. An int whose quotient overflows raises OverflowError (every int of
  magnitude \<open>2 ^ 1025 * 10 ^ 9\<close> or more does), a NaN raises ValueError and an infinity
  OverflowError; on a float column, which is what the notebook passes, the result is the
  float column of the rounded elements, NaN and the infinities kept and a negative element
  that rounds to zero giving \<open>-0.0\<close>. For an int, or an integer-valued float, of magnitude
  below \<open>2 ^ 53\<close>, and for every multiple of 500,000,000 of magnitude below
  \<open>2 ^ 52 * 10 ^ 9\<close>, the result is the half-even rounding of the exact quotient:
  1,500,000,000 gives 2 and 500,000,000 gives 0. Beyond that the two can differ, as the
  int 16777216500000001 shows above.
\<close>

theorem formatNum_rounds_double_quotient:
  "formatNum (PyInt n) =
     (if 2 ^ 1024 \<le> \<bar>nearest_double (of_int n / 1000000000)\<bar> then Inl OverflowError
      else Inr (PyInt (round_half_even (nearest_double (of_int n / 1000000000)))))
   \<and> (\<bar>x\<bar> < 2 ^ 1024 \<longrightarrow>
        formatNum (PyFloat (Finite x)) =
          Inr (PyInt (round_half_even (nearest_double (x / 1000000000)))))
   \<and> formatNum (PyFloat NegZero) = Inr (PyInt 0)
   \<and> formatNum (PyFloat NaN) = Inl ValueError
   \<and> formatNum (PyFloat PosInf) = Inl OverflowError
   \<and> formatNum (PyFloat NegInf) = Inl OverflowError
   \<and> formatNum (Series xs) = Inr (Series (map (\<lambda>x. rint (float_div_billion x)) xs))
   \<and> (\<bar>x\<bar> < 2 ^ 1024 \<longrightarrow>
        rint (float_div_billion (Finite x)) =
          (if round_half_even (nearest_double (x / 1000000000)) = 0 \<and> x < 0 then NegZero
           else Finite (of_int (round_half_even (nearest_double (x / 1000000000))))))
   \<and> rint (float_div_billion NaN) = NaN
   \<and> (k = round_half_even y \<longleftrightarrow>
        \<bar>of_int k - y\<bar> \<le> 1 / 2 \<and> (\<bar>of_int k - y\<bar> = 1 / 2 \<longrightarrow> even k))
   \<and> (q \<noteq> 0 \<longrightarrow>
        2 powi binary_exponent q \<le> \<bar>q\<bar> \<and> \<bar>q\<bar> < 2 powi (binary_exponent q + 1)
        \<and> nearest_double q = of_int (round_half_even (q / ulp q)) * ulp q)
   \<and> \<bar>nearest_double q - q\<bar> \<le> ulp q / 2
   \<and> \<bar>nearest_double (of_int n / 1000000000) - of_int n / 1000000000\<bar>
        \<le> \<bar>of_int n / 1000000000\<bar> / 2 ^ 53
   \<and> (\<bar>n\<bar> < 2 ^ 53 \<longrightarrow>
        formatNum (PyInt n) = Inr (PyInt (round_half_even (of_int n / 1000000000)))
        \<and> formatNum (PyFloat (Finite (of_int n))) =
            Inr (PyInt (round_half_even (of_int n / 1000000000)))
        \<and> rint (float_div_billion (Finite (of_int n))) =
            (if round_half_even (of_int n / 1000000000) = 0 \<and> n < 0 then NegZero
             else Finite (of_int (round_half_even (of_int n / 1000000000)))))
   \<and> (500000000 dvd n \<and> \<bar>n\<bar> < 2 ^ 52 * 1000000000 \<longrightarrow>
        formatNum (PyInt n) = Inr (PyInt (round_half_even (of_int n / 1000000000))))
   \<and> (2 ^ 1025 * 1000000000 \<le> \<bar>m\<bar> \<longrightarrow> formatNum (PyInt m) = Inl OverflowError)
   \<and> formatNum (PyInt 1500000000) = Inr (PyInt 2)
   \<and> formatNum (PyInt 500000000) = Inr (PyInt 0)
   \<and> formatNum (Series [Finite 1500000000, Finite 500000000]) = Inr (Series [Finite 2, Finite 0])"
proof -
  have c1: "formatNum (PyInt n) =
     (if 2 ^ 1024 \<le> \<bar>nearest_double (of_int n / 1000000000)\<bar> then Inl OverflowError
      else Inr (PyInt (round_half_even (nearest_double (of_int n / 1000000000)))))"
    by (rule formatNum_int)
  have c2: "\<bar>x\<bar> < 2 ^ 1024 \<longrightarrow>
        formatNum (PyFloat (Finite x)) =
          Inr (PyInt (round_half_even (nearest_double (x / 1000000000))))"
    using formatNum_float by blast
  have c3: "formatNum (PyFloat NegZero) = Inr (PyInt 0)" by (simp add: formatNum_def)
  have c4: "formatNum (PyFloat NaN) = Inl ValueError" by (simp add: formatNum_def)
  have c5: "formatNum (PyFloat PosInf) = Inl OverflowError" by (simp add: formatNum_def)
  have c6: "formatNum (PyFloat NegInf) = Inl OverflowError" by (simp add: formatNum_def)
  have c7: "formatNum (Series xs) = Inr (Series (map (\<lambda>x. rint (float_div_billion x)) xs))"
    by (simp add: formatNum_def comp_def)
  have c8: "\<bar>x\<bar> < 2 ^ 1024 \<longrightarrow>
        rint (float_div_billion (Finite x)) =
          (if round_half_even (nearest_double (x / 1000000000)) = 0 \<and> x < 0 then NegZero
           else Finite (of_int (round_half_even (nearest_double (x / 1000000000)))))"
    using rint_quotient by blast
  have c9: "rint (float_div_billion NaN) = NaN" by simp
  have c10: "k = round_half_even y \<longleftrightarrow>
        \<bar>of_int k - y\<bar> \<le> 1 / 2 \<and> (\<bar>of_int k - y\<bar> = 1 / 2 \<longrightarrow> even k)"
    using round_half_even_near [of y] round_half_even_tie [of y] round_half_even_unique [of k y]
    by blast
  have c11: "q \<noteq> 0 \<longrightarrow>
        2 powi binary_exponent q \<le> \<bar>q\<bar> \<and> \<bar>q\<bar> < 2 powi (binary_exponent q + 1)
        \<and> nearest_double q = of_int (round_half_even (q / ulp q)) * ulp q"
    using binary_exponent_bounds [of q] nearest_double_ulp [of q] by blast
  have c12: "\<bar>nearest_double q - q\<bar> \<le> ulp q / 2" by (rule nearest_double_half_ulp)
  have c13: "\<bar>nearest_double (of_int n / 1000000000) - of_int n / 1000000000\<bar>
        \<le> \<bar>of_int n / 1000000000\<bar> / 2 ^ 53"
    by (rule int_quotient_close)
  have c14: "\<bar>n\<bar> < 2 ^ 53 \<longrightarrow>
        formatNum (PyInt n) = Inr (PyInt (round_half_even (of_int n / 1000000000)))
        \<and> formatNum (PyFloat (Finite (of_int n))) =
            Inr (PyInt (round_half_even (of_int n / 1000000000)))
        \<and> rint (float_div_billion (Finite (of_int n))) =
            (if round_half_even (of_int n / 1000000000) = 0 \<and> n < 0 then NegZero
             else Finite (of_int (round_half_even (of_int n / 1000000000))))"
    using formatNum_int_exact [of n] formatNum_float_exact [of n] rint_quotient_exact [of n]
    by blast
  have c15: "500000000 dvd n \<and> \<bar>n\<bar> < 2 ^ 52 * 1000000000 \<longrightarrow>
        formatNum (PyInt n) = Inr (PyInt (round_half_even (of_int n / 1000000000)))"
    using formatNum_half_billions [of n] by blast
  have c15': "2 ^ 1025 * 1000000000 \<le> \<bar>m\<bar> \<longrightarrow> formatNum (PyInt m) = Inl OverflowError"
    using formatNum_overflow [of m] by blast
  have c16: "formatNum (PyInt 1500000000) = Inr (PyInt 2)" by code_simp
  have c17: "formatNum (PyInt 500000000) = Inr (PyInt 0)" by code_simp
  have c18: "formatNum (Series [Finite 1500000000, Finite 500000000])
               = Inr (Series [Finite 2, Finite 0])" by code_simp
  from c1 c2 c3 c4 c5 c6 c7 c8 c9 c10 c11 c12 c13 c14 c15 c15' c16 c17 c18
  show ?thesis by (intro conjI)
qed

theorem formatNum_rounds_double_quotient_witness:
  "\<bar>2500000000 :: int\<bar> < 2 ^ 53
   \<and> (500000000 :: int) dvd 2500000000
   \<and> \<bar>2500000000 :: int\<bar> < 2 ^ 52 * 1000000000
   \<and> formatNum (PyInt 2500000000) = Inr (PyInt 2)
   \<and> formatNum (PyFloat (Finite (of_int 2500000000))) = Inr (PyInt 2)
   \<and> \<bar>- 400000000 :: rat\<bar> < 2 ^ 1024
   \<and> formatNum (PyFloat (Finite (- 400000000))) = Inr (PyInt 0)
   \<and> rint (float_div_billion (Finite (- 400000000))) = NegZero
   \<and> \<bar>of_int 2 - 5 / 2 :: rat\<bar> = 1 / 2 \<and> even (2 :: int)
   \<and> round_half_even (5 / 2) = 2
   \<and> (5 / 2 :: rat) \<noteq> 0
   \<and> 2 powi binary_exponent (5 / 2) \<le> \<bar>5 / 2 :: rat\<bar>
   \<and> nearest_double (5 / 2) = of_int (round_half_even ((5 / 2) / ulp (5 / 2))) * ulp (5 / 2)
   \<and> 2 ^ 1025 * 1000000000 \<le> \<bar>2 ^ 1025 * 1000000000 :: int\<bar>
   \<and> formatNum (PyInt (2 ^ 1025 * 1000000000)) = Inl OverflowError"
proof -
  note t = formatNum_rounds_double_quotient
    [of 2500000000 "- 400000000" "[]" 2 "5 / 2" "5 / 2" "2 ^ 1025 * 1000000000"]
  note t2 = t [THEN conjunct2, THEN conjunct1]
  note t8 = t [THEN conjunct2, THEN conjunct2, THEN conjunct2, THEN conjunct2, THEN conjunct2,
    THEN conjunct2, THEN conjunct2, THEN conjunct1]
  note t10 = t [THEN conjunct2, THEN conjunct2, THEN conjunct2, THEN conjunct2, THEN conjunct2,
    THEN conjunct2, THEN conjunct2, THEN conjunct2, THEN conjunct2, THEN conjunct1]
  note t11 = t [THEN conjunct2, THEN conjunct2, THEN conjunct2, THEN conjunct2, THEN conjunct2,
    THEN conjunct2, THEN conjunct2, THEN conjunct2, THEN conjunct2, THEN conjunct2,
    THEN conjunct1]
  note t14 = t [THEN conjunct2, THEN conjunct2, THEN conjunct2, THEN conjunct2, THEN conjunct2,
    THEN conjunct2, THEN conjunct2, THEN conjunct2, THEN conjunct2, THEN conjunct2,
    THEN conjunct2, THEN conjunct2, THEN conjunct2, THEN conjunct1]
  note t15 = t [THEN conjunct2, THEN conjunct2, THEN conjunct2, THEN conjunct2, THEN conjunct2,
    THEN conjunct2, THEN conjunct2, THEN conjunct2, THEN conjunct2, THEN conjunct2,
    THEN conjunct2, THEN conjunct2, THEN conjunct2, THEN conjunct2, THEN conjunct1]
  note t16 = t [THEN conjunct2, THEN conjunct2, THEN conjunct2, THEN conjunct2, THEN conjunct2,
    THEN conjunct2, THEN conjunct2, THEN conjunct2, THEN conjunct2, THEN conjunct2,
    THEN conjunct2, THEN conjunct2, THEN conjunct2, THEN conjunct2, THEN conjunct2,
    THEN conjunct1]
  have h1: "\<bar>2500000000 :: int\<bar> < 2 ^ 53" by simp
  have h2: "(500000000 :: int) dvd 2500000000" by simp
  have h3: "\<bar>2500000000 :: int\<bar> < 2 ^ 52 * 1000000000" by simp
  have h4: "\<bar>- 400000000 :: rat\<bar> < 2 ^ 1024" by simp
  have h5: "\<bar>of_int 2 - 5 / 2 :: rat\<bar> = 1 / 2" by simp
  have h6: "even (2 :: int)" by simp
  have h7: "(5 / 2 :: rat) \<noteq> 0" by simp
  have v1: "round_half_even (of_int 2500000000 / 1000000000) = 2" by code_simp
  have v2: "round_half_even (nearest_double (- 400000000 / 1000000000)) = 0" by code_simp
  have r1: "formatNum (PyInt 2500000000) = Inr (PyInt 2)"
    using t15 [THEN mp, OF conjI [OF h2 h3]] unfolding v1 .
  have r1': "formatNum (PyFloat (Finite (of_int 2500000000))) = Inr (PyInt 2)"
    using t14 [THEN mp, OF h1, THEN conjunct2, THEN conjunct1] unfolding v1 .
  have r2: "formatNum (PyFloat (Finite (- 400000000))) = Inr (PyInt 0)"
    using t2 [THEN mp, OF h4] unfolding v2 .
  have r3: "rint (float_div_billion (Finite (- 400000000))) = NegZero"
    using t8 [THEN mp, OF h4] unfolding v2 by simp
  have "\<bar>of_int 2 - 5 / 2 :: rat\<bar> \<le> 1 / 2" by simp
  then have "(2 :: int) = round_half_even (5 / 2)"
    using t10 h6 by blast
  then have r4: "round_half_even (5 / 2) = 2" by (rule sym)
  note r5 = t11 [THEN mp, OF h7, THEN conjunct1]
  note r6 = t11 [THEN mp, OF h7, THEN conjunct2, THEN conjunct2]
  have h8: "2 ^ 1025 * 1000000000 \<le> \<bar>2 ^ 1025 * 1000000000 :: int\<bar>" by simp
  note r7 = t16 [THEN mp, OF h8]
  from h1 h2 h3 r1 r1' h4 r2 r3 h5 h6 r4 h7 r5 r6 h8 r7 show ?thesis by (intro conjI)
qed

section \<open>Region names\<close>

lemma str_replace_char: "str_replace [c] [] s = filter (\<lambda>x. x \<noteq> c) s"
  unfolding str_replace_def by (induction s) auto

lemma replace_from_absent: "\<not> sublist old s \<Longrightarrow> replace_from old new s = s"
  by (induction s) (auto simp: sublist_Cons_right)

lemma prefix_within:
  assumes "prefix xs (ys @ zs)" and "length xs \<le> length ys"
  shows "prefix xs ys"
proof -
  from assms(1) obtain us where "ys @ zs = xs @ us" by (auto simp: prefix_def)
  then have "take (length xs) (ys @ zs) = xs" by simp
  then have "take (length xs) ys = xs" using assms(2) by simp
  then show ?thesis by (metis take_is_prefix)
qed

lemma replace_from_first:
  assumes "old \<noteq> []" and "\<not> sublist old (pre @ butlast old)"
  shows "replace_from old new (pre @ old @ post) = pre @ new @ replace_from old new post"
  using assms(2)
proof (induction pre)
  case Nil
  obtain c cs where old: "old = c # cs" using assms(1) by (cases old) auto
  show ?case by (simp add: old)
next
  case (Cons a pre)
  have np: "\<not> prefix old (a # pre @ old @ post)"
  proof
    assume p: "prefix old (a # pre @ old @ post)"
    have l: "length old \<le> length ((a # pre) @ butlast old)" by simp
    have e: "old @ post = butlast old @ (last old # post)"
      using append_butlast_last_id [OF assms(1)] by (metis append.assoc append_Cons append_Nil)
    from p have "prefix old (a # pre @ (butlast old @ (last old # post)))" by (simp only: e)
    then have "prefix old (((a # pre) @ butlast old) @ (last old # post))"
      by (simp only: append_Cons append_assoc)
    then have "prefix old ((a # pre) @ butlast old)"
      using l by (rule prefix_within)
    then show False using Cons.prems by (meson prefix_imp_sublist)
  qed
  have "\<not> sublist old (pre @ butlast old)"
    using Cons.prems by (simp add: sublist_Cons_right)
  with Cons.IH np show ?case by simp
qed

lemma region_cleanup_filter:
  "region_cleanup s =
     filter (\<lambda>c. c \<noteq> CHR ''('' \<and> c \<noteq> CHR '')'') (str_replace ''excluding high income'' '''' s)"
  unfolding region_cleanup_def str_replace_char by (simp add: conj_commute)

text \<open>
  C10. The cleanup of a region name deletes the text \<open>excluding high income\<close> and then
  every \<open>(\<close> and every \<open>)\<close>, wherever they stand: the result is the name after the
  deletion of that text, without its parentheses and with every other character kept in
  place. The first occurrence of the text is cut out and the rest of the name is treated
  the same way. A name without the text only loses its parentheses, and a name with
  neither the text nor a parenthesis is returned as it is.
\<close>

theorem region_cleanup_removes_text_and_parentheses:
  "region_cleanup s =
     filter (\<lambda>c. c \<noteq> CHR ''('' \<and> c \<noteq> CHR '')'') (str_replace ''excluding high income'' '''' s)
   \<and> CHR ''('' \<notin> set (region_cleanup s)
   \<and> CHR '')'' \<notin> set (region_cleanup s)
   \<and> (\<not> sublist ''excluding high income'' (pre @ butlast ''excluding high income'') \<longrightarrow>
        str_replace ''excluding high income'' '''' (pre @ ''excluding high income'' @ post) =
          pre @ str_replace ''excluding high income'' '''' post)
   \<and> (\<not> sublist ''excluding high income'' s \<longrightarrow>
        region_cleanup s = filter (\<lambda>c. c \<noteq> CHR ''('' \<and> c \<noteq> CHR '')'') s)
   \<and> (\<not> sublist ''excluding high income'' s \<and> CHR ''('' \<notin> set s \<and> CHR '')'' \<notin> set s \<longrightarrow>
        region_cleanup s = s)"
proof -
  have ne: "''excluding high income'' \<noteq> []" by simp
  have first: "str_replace ''excluding high income'' '''' (pre @ ''excluding high income'' @ post) =
      pre @ str_replace ''excluding high income'' '''' post"
    if "\<not> sublist ''excluding high income'' (pre @ butlast ''excluding high income'')"
    using replace_from_first [OF ne that, of "''''" post] by (simp add: str_replace_def)
  have absent: "str_replace ''excluding high income'' '''' s = s"
    if "\<not> sublist ''excluding high income'' s"
    using replace_from_absent [OF that] by (simp add: str_replace_def)
  have keep: "filter (\<lambda>c. c \<noteq> CHR ''('' \<and> c \<noteq> CHR '')'') s = s"
    if "CHR ''('' \<notin> set s" "CHR '')'' \<notin> set s"
    using that by (induction s) auto
  show ?thesis
    using first absent keep by (simp add: region_cleanup_filter)
qed

theorem region_cleanup_removes_text_and_parentheses_witness:
  "\<not> sublist ''excluding high income'' ''South Asia''
   \<and> CHR ''('' \<notin> set ''South Asia'' \<and> CHR '')'' \<notin> set ''South Asia''
   \<and> region_cleanup ''South Asia'' = ''South Asia''
   \<and> \<not> sublist ''excluding high income'' (''Sub-Saharan Africa ('' @ butlast ''excluding high income'')
   \<and> str_replace ''excluding high income'' '''' (''Sub-Saharan Africa ('' @ ''excluding high income'' @ '')'')
       = ''Sub-Saharan Africa ('' @ str_replace ''excluding high income'' '''' '')''
   \<and> region_cleanup ''Sub-Saharan Africa (excluding high income)'' = ''Sub-Saharan Africa ''"
proof -
  have a: "\<not> sublist ''excluding high income'' ''South Asia''"
    by (simp add: sublist_Cons_right)
  have b: "\<not> sublist ''excluding high income'' (''Sub-Saharan Africa ('' @ butlast ''excluding high income'')"
    by (simp add: sublist_Cons_right)
  have c: "region_cleanup ''Sub-Saharan Africa (excluding high income)'' = ''Sub-Saharan Africa ''"
    by (simp add: region_cleanup_def str_replace_def)
  have p: "CHR ''('' \<notin> set ''South Asia''" "CHR '')'' \<notin> set ''South Asia''"
    by simp_all
  note t = region_cleanup_removes_text_and_parentheses
    [of "''South Asia''" "''Sub-Saharan Africa (''" "'')''"]
  from t a p have r: "region_cleanup ''South Asia'' = ''South Asia''"
    by blast
  from t b have f: "str_replace ''excluding high income'' ''''
      (''Sub-Saharan Africa ('' @ ''excluding high income'' @ '')'')
       = ''Sub-Saharan Africa ('' @ str_replace ''excluding high income'' '''' '')''"
    by blast
  from a p r b f c show ?thesis
    by (intro conjI)
qed

end
